theory Spec2Isabelle
  imports Main "HOL-Library.List_Lexorder" "HOL-Library.Product_Lexorder" "HOL-Library.Multiset"
begin

section \<open>Text and table cells\<close>

text \<open>
  A Python \<^verbatim>\<open>str\<close> is a sequence of Unicode code points; slicing, \<^verbatim>\<open>in\<close> and the
  comparison of two strings all work on code points. It is modelled as a list of natural
  numbers, ordered lexicographically as Python orders strings. \<open>py\<close> writes an ASCII
  literal of the source.

  A cell of a text column of a DataFrame is a string or NaN (a blank cell of the CSV
  input): \<open>None\<close> is NaN.
\<close>

type_synonym pystr = "nat list"

type_synonym cell = "pystr option"

definition py :: "string \<Rightarrow> pystr" where
  "py s = map of_char s"

text \<open>\<^verbatim>\<open>str(x)\<close> of a cell: a string is itself, the float NaN prints as \<^verbatim>\<open>nan\<close>.\<close>

definition py_str :: "cell \<Rightarrow> pystr" where
  "py_str x = (case x of None \<Rightarrow> py ''nan'' | Some s \<Rightarrow> s)"

text \<open>
  \<^verbatim>\<open>str.lower()\<close> maps every code point to the code points of its lower-case form. The
  Unicode table it reads is not part of the repository and is a parameter \<open>lc\<close> here:
  \<open>lc pre c post\<close> is what the code point \<open>c\<close> becomes between the code points
  \<open>pre\<close> and \<open>post\<close> (Python looks at the context for the Greek final sigma).
  \<open>ascii_lc\<close> is the table restricted to ASCII, for concrete evaluations.
\<close>

type_synonym lower_table = "pystr \<Rightarrow> nat \<Rightarrow> pystr \<Rightarrow> pystr"

fun lower_from :: "lower_table \<Rightarrow> pystr \<Rightarrow> pystr \<Rightarrow> pystr" where
  "lower_from lc pre [] = []"
| "lower_from lc pre (c # post) = lc pre c post @ lower_from lc (pre @ [c]) post"

definition lower :: "lower_table \<Rightarrow> pystr \<Rightarrow> pystr" where
  "lower lc s = lower_from lc [] s"

definition ascii_lc :: lower_table where
  "ascii_lc pre c post = (if 65 \<le> c \<and> c \<le> 90 then [c + 32] else [c])"

text \<open>Python's \<^verbatim>\<open>k in t\<close> on strings: \<open>k\<close> occurs in \<open>t\<close> as a contiguous run.\<close>

fun starts_with :: "pystr \<Rightarrow> pystr \<Rightarrow> bool" where
  "starts_with [] t = True"
| "starts_with (a # k) [] = False"
| "starts_with (a # k) (b # t) = (a = b \<and> starts_with k t)"

fun py_in :: "pystr \<Rightarrow> pystr \<Rightarrow> bool" where
  "py_in k [] = (k = [])"
| "py_in k (c # t) = (starts_with k (c # t) \<or> py_in k t)"

section \<open>Classifier\<close>

text \<open>
  The four tag keywords of \<^verbatim>\<open>determine_product_type\<close>, as code points:
  U+852C U+83DC U+6C34 U+679C U+7C7B, U+72EC U+5BB6 U+8BA2 U+9605 U+5305,
  U+51B0 U+51BB U+51B7 U+85CF U+7C7B and U+5E38 U+6E29 U+7C7B.
\<close>

definition kw_vege :: pystr where
  "kw_vege = [0x852C, 0x83DC, 0x6C34, 0x679C, 0x7C7B]"

definition kw_subscription :: pystr where
  "kw_subscription = [0x72EC, 0x5BB6, 0x8BA2, 0x9605, 0x5305]"

definition kw_cool :: pystr where
  "kw_cool = [0x51B0, 0x51BB, 0x51B7, 0x85CF, 0x7C7B]"

definition kw_general :: pystr where
  "kw_general = [0x5E38, 0x6E29, 0x7C7B]"

definition determine_product_type :: "lower_table \<Rightarrow> cell \<Rightarrow> pystr" where
  "determine_product_type lc tag =
     (let tag = lower lc (py_str tag) in
      if py_in kw_vege tag \<or> py_in kw_subscription tag then py ''vege & fruit''
      else if py_in kw_cool tag then py ''cool''
      else if py_in kw_general tag then py ''general''
      else py ''other'')"

section \<open>Product catalog\<close>

text \<open>
  A row of the products CSV. The four columns the code reads are the fields; every other
  column of the file sits in the extension slot of the record, so that selecting the four
  columns is \<open>catalog_row.truncate\<close>.
\<close>

record catalog_row =
  Title :: cell
  Tags :: cell
  Variant_SKU :: cell
  Vendor :: cell

text \<open>A row of \<^verbatim>\<open>df_plist\<close>: the four columns, the product type and the join key.\<close>

record plist_row = catalog_row +
  Product_type :: pystr
  Lineitem_name :: cell

text \<open>Lines 30 to 33 of \<^verbatim>\<open>process_data\<close>, after \<^verbatim>\<open>read_csv\<close>.\<close>

definition select_columns :: "'a catalog_row_scheme list \<Rightarrow> catalog_row list" where
  "select_columns df = map catalog_row.truncate df"

definition dropna_Tags :: "catalog_row list \<Rightarrow> catalog_row list" where
  "dropna_Tags df = filter (\<lambda>r. Tags r \<noteq> None) df"

definition add_product_type :: "lower_table \<Rightarrow> catalog_row \<Rightarrow> plist_row" where
  "add_product_type lc r =
     catalog_row.extend r
       (plist_row.fields (determine_product_type lc (Tags r)) (Title r))"

definition parse_catalog :: "lower_table \<Rightarrow> 'a catalog_row_scheme list \<Rightarrow> plist_row list" where
  "parse_catalog lc products_data =
     map (add_product_type lc) (dropna_Tags (select_columns products_data))"

section \<open>Route manifest\<close>

text \<open>
  The tables are taken as \<^verbatim>\<open>read_csv\<close> returns them, after the header has been stripped
  and renamed (lines 10 to 20), with every column the code reads present: then the check
  of lines 50 to 52 finds no missing column and does not raise. Text columns hold cells,
  also where \<^verbatim>\<open>read_csv\<close> would take a column that is blank or numeric throughout for a
  column of numbers, on which \<^verbatim>\<open>.str\<close> raises. The numeric columns \<^verbatim>\<open>Total items\<close>,
  \<^verbatim>\<open>time\<close> and \<^verbatim>\<open>dist\<close> hold numbers of a type \<open>'n\<close> or NaN; the rounding of sums of
  floating-point numbers is not modelled. The code calls \<^verbatim>\<open>DataFrame.append\<close>, which
  pandas has up to version 1.

  \<open>stop_cols\<close> are the columns that go unchanged from the input to the result of
  \<^verbatim>\<open>process_data\<close>; a row of the route CSV has \<^verbatim>\<open>Route\<close> and \<^verbatim>\<open>Items\<close> as well.
\<close>

record 'n stop_cols =
  Driver :: cell
  Stop :: cell
  Shipping_name :: cell
  Address :: cell
  Total_items :: "'n option"
  Note :: cell
  time :: "'n option"
  dist :: "'n option"

record 'n route_row = "'n stop_cols" +
  Route :: cell
  Items :: cell

subsection \<open>Forward fill (lines 22 to 27)\<close>

text \<open>\<^verbatim>\<open>Series.ffill\<close>: a NaN takes the last value seen above it, if there is one.\<close>

fun ffill_from :: "'a option \<Rightarrow> 'a option list \<Rightarrow> 'a option list" where
  "ffill_from seen [] = []"
| "ffill_from seen (x # xs) =
     (case x of
        None \<Rightarrow> seen # ffill_from seen xs
      | Some v \<Rightarrow> Some v # ffill_from (Some v) xs)"

definition ffill :: "'a option list \<Rightarrow> 'a option list" where
  "ffill col = ffill_from None col"

text \<open>Assigning a column: \<^verbatim>\<open>df[c] = values\<close>, row by row.\<close>

definition assign :: "('r \<Rightarrow> 'v \<Rightarrow> 'r) \<Rightarrow> 'r list \<Rightarrow> 'v list \<Rightarrow> 'r list" where
  "assign upd df col = map (\<lambda>(r, v). upd r v) (zip df col)"

definition ffill_cols :: "'n route_row list \<Rightarrow> 'n route_row list" where
  "ffill_cols df =
     (let df = assign (\<lambda>r v. r\<lparr>Route := v\<rparr>) df (ffill (map Route df));
          df = assign (\<lambda>r v. r\<lparr>Driver := v\<rparr>) df (ffill (map Driver df));
          df = assign (\<lambda>r v. r\<lparr>Stop := v\<rparr>) df (ffill (map Stop df));
          df = assign (\<lambda>r v. r\<lparr>Address := v\<rparr>) df (ffill (map Address df))
      in assign (\<lambda>r v. r\<lparr>Shipping_name := v\<rparr>) df (ffill (map Shipping_name df)))"

text \<open>\<^verbatim>\<open>.str.split(',').str[0]\<close>: the text before the first comma (code point 44).\<close>

definition split_comma_first :: "cell \<Rightarrow> cell" where
  "split_comma_first x = map_option (takeWhile (\<lambda>c. c \<noteq> 44)) x"

definition address_processing :: "'n route_row list \<Rightarrow> 'n route_row list" where
  "address_processing df =
     assign (\<lambda>r v. r\<lparr>Address := v\<rparr>) df (ffill (map (split_comma_first \<circ> Address) df))"

subsection \<open>Item count and item name (lines 36 and 37)\<close>

text \<open>
  The regular expression \<^verbatim>\<open>\d\<close> and \<^verbatim>\<open>int()\<close> read Unicode's table of decimal digits,
  which is a parameter \<open>dv\<close>: \<open>dv c\<close> is the value of the digit \<open>c\<close>, \<open>None\<close> when \<open>c\<close> is
  no digit. \<open>ascii_digits\<close> is the table restricted to ASCII.
\<close>

type_synonym digit_table = "nat \<Rightarrow> nat option"

definition ascii_digits :: digit_table where
  "ascii_digits c = (if 48 \<le> c \<and> c \<le> 57 then Some (c - 48) else None)"

definition is_digit :: "digit_table \<Rightarrow> nat \<Rightarrow> bool" where
  "is_digit dv c = (dv c \<noteq> None)"

text \<open>\<^verbatim>\<open>.str[3:]\<close> and \<^verbatim>\<open>.str[:3]\<close>; NaN stays NaN.\<close>

definition str_from_3 :: "cell \<Rightarrow> cell" where
  "str_from_3 x = map_option (drop 3) x"

definition str_upto_3 :: "cell \<Rightarrow> cell" where
  "str_upto_3 x = map_option (take 3) x"

text \<open>
  \<^verbatim>\<open>.str.extract('(\d+)')\<close>: the leftmost longest run of digits, NaN when the text has no
  digit or is NaN.
\<close>

definition extract_digits :: "digit_table \<Rightarrow> cell \<Rightarrow> cell" where
  "extract_digits dv x =
     (case x of
        None \<Rightarrow> None
      | Some s \<Rightarrow>
          (let m = takeWhile (is_digit dv) (dropWhile (\<lambda>c. \<not> is_digit dv c) s)
           in if m = [] then None else Some m))"

record 'n items_row = "'n route_row" +
  Lineitem_name :: cell
  Item_Count :: cell

definition extract_items :: "digit_table \<Rightarrow> 'n route_row \<Rightarrow> 'n items_row" where
  "extract_items dv r =
     route_row.extend r
       (items_row.fields (str_from_3 (Items r)) (extract_digits dv (str_upto_3 (Items r))))"

text \<open>The route table as it stands before the merge of line 40.\<close>

definition parse_routes :: "digit_table \<Rightarrow> 'n route_row list \<Rightarrow> 'n items_row list" where
  "parse_routes dv route_data =
     map (extract_items dv) (address_processing (ffill_cols route_data))"

subsection \<open>Merge with the catalog (line 40)\<close>

text \<open>
  \<^verbatim>\<open>pd.merge(..., on='Lineitem name', how='left')\<close> keeps the route rows in their order.
  A route row is followed by one copy for every catalog row with the same key, in catalog
  order, and by a single copy with NaN in all catalog columns when there is none; NaN
  keys match each other. The catalog columns of a merged row are the field \<open>catalog\<close>,
  \<open>None\<close> standing for NaN in all of them.
\<close>

record 'n merged_row = "'n items_row" +
  catalog :: "plist_row option"

definition matches :: "plist_row list \<Rightarrow> cell \<Rightarrow> plist_row list" where
  "matches df_plist key = filter (\<lambda>p. plist_row.Lineitem_name p = key) df_plist"

definition join_row :: "plist_row list \<Rightarrow> 'n items_row \<Rightarrow> 'n merged_row list" where
  "join_row df_plist l =
     (let ms = matches df_plist (items_row.Lineitem_name l)
      in if ms = [] then [items_row.extend l (merged_row.fields None)]
         else map (\<lambda>p. items_row.extend l (merged_row.fields (Some p))) ms)"

definition merge_left :: "'n items_row list \<Rightarrow> plist_row list \<Rightarrow> 'n merged_row list" where
  "merge_left route_df df_plist = concat (map (join_row df_plist) route_df)"

subsection \<open>The Count column and the final columns (lines 43 to 54)\<close>

text \<open>\<^verbatim>\<open>np.where(Item Count != "1", Item Count, '')\<close>; NaN differs from \<^verbatim>\<open>"1"\<close> and stays.\<close>

definition count_field :: "cell \<Rightarrow> cell" where
  "count_field item_count = (if item_count \<noteq> Some (py ''1'') then item_count else Some [])"

record 'n final_row = "'n stop_cols" +
  Count :: cell
  Item_Count :: cell
  Lineitem_name :: cell

definition final_cols :: "'n merged_row \<Rightarrow> 'n final_row" where
  "final_cols m =
     stop_cols.extend (stop_cols.truncate m)
       (final_row.fields (count_field (items_row.Item_Count m)) (items_row.Item_Count m)
          (items_row.Lineitem_name m))"

definition process_data ::
  "digit_table \<Rightarrow> lower_table \<Rightarrow> 'n route_row list \<Rightarrow> 'a catalog_row_scheme list \<Rightarrow>
     'n final_row list \<times> plist_row list" where
  "process_data dv lc route_data products_data =
     (let route_df = address_processing (ffill_cols route_data);
          df_plist = parse_catalog lc products_data;
          route_df = map (extract_items dv) route_df;
          route_df = merge_left route_df df_plist
      in (map final_cols route_df, df_plist))"

section \<open>Packing table (lines 130 to 135)\<close>

datatype error = ValueError

text \<open>
  \<^verbatim>\<open>astype(int)\<close> calls \<^verbatim>\<open>int\<close> on every cell of the column and raises \<^verbatim>\<open>ValueError\<close> on
  NaN. The cells of \<^verbatim>\<open>Item Count\<close> are NaN or runs of digits, which is all line 37
  produces; \<open>py_int\<close> gives the value of a run of digits. What \<^verbatim>\<open>int\<close> makes of a sign,
  of blanks or of underscores is not needed and not modelled: any other text is an
  error here. The counts have at most three digits, so their sums stay far from the
  bounds of the 64-bit integers of the column, and \<open>int\<close> stands for them.
\<close>

definition digits_value :: "digit_table \<Rightarrow> pystr \<Rightarrow> nat" where
  "digits_value dv s = foldl (\<lambda>a c. 10 * a + the (dv c)) 0 s"

definition py_int :: "digit_table \<Rightarrow> pystr \<Rightarrow> error + int" where
  "py_int dv s =
     (if s \<noteq> [] \<and> list_all (is_digit dv) s then Inr (int (digits_value dv s))
      else Inl ValueError)"

definition astype_int :: "digit_table \<Rightarrow> cell \<Rightarrow> error + int" where
  "astype_int dv x = (case x of None \<Rightarrow> Inl ValueError | Some s \<Rightarrow> py_int dv s)"

fun astype_int_col :: "digit_table \<Rightarrow> cell list \<Rightarrow> error + int list" where
  "astype_int_col dv [] = Inr []"
| "astype_int_col dv (x # xs) =
     (case astype_int dv x of
        Inl e \<Rightarrow> Inl e
      | Inr n \<Rightarrow> (case astype_int_col dv xs of Inl e \<Rightarrow> Inl e | Inr ns \<Rightarrow> Inr (n # ns)))"

text \<open>
  \<^verbatim>\<open>groupby\<close> with its defaults: the groups come in ascending order of their keys, a row
  whose key is NaN is in no group, and the rows of a group keep their order.
\<close>

definition group_keys :: "('k::linorder) option list \<Rightarrow> 'k list" where
  "group_keys col = sort (remdups (map the (filter (\<lambda>x. x \<noteq> None) col)))"

definition groupby :: "('r \<Rightarrow> ('k::linorder) option) \<Rightarrow> 'r list \<Rightarrow> ('k \<times> 'r list) list" where
  "groupby key df = map (\<lambda>k. (k, filter (\<lambda>r. key r = Some k) df)) (group_keys (map key df))"

text \<open>The key of \<^verbatim>\<open>groupby(["Driver", "Lineitem name"])\<close>: NaN when either column is.\<close>

definition driver_item_key :: "cell \<times> cell \<times> int \<Rightarrow> (pystr \<times> pystr) option" where
  "driver_item_key r =
     (case r of (Some d, Some n, c) \<Rightarrow> Some (d, n) | _ \<Rightarrow> None)"

definition groupby_sum :: "(cell \<times> cell \<times> int) list \<Rightarrow> ((pystr \<times> pystr) \<times> int) list" where
  "groupby_sum df =
     map (\<lambda>(k, g). (k, sum_list (map (\<lambda>(d, n, c). c) g))) (groupby driver_item_key df)"

text \<open>The decimal digits of a number, as \<^verbatim>\<open>np.where\<close> writes it next to a string.\<close>

function decimal :: "nat \<Rightarrow> pystr" where
  "decimal n = (if n < 10 then [48 + n] else decimal (n div 10) @ [48 + n mod 10])"
  by pat_completeness auto
termination
  by (relation "measure (\<lambda>n. n)") auto

definition count_new :: "int \<Rightarrow> pystr" where
  "count_new c = (if c > 1 then decimal (nat c) else [])"

text \<open>
  A row of \<^verbatim>\<open>packing_df\<close>. The sums of the text column \<^verbatim>\<open>Item Count\<close> that
  \<^verbatim>\<open>groupby(...).sum()\<close> may carry along are never read again and are left out. As in
  the merged route rows, the catalog columns are the field \<open>product\<close>.
\<close>

record packing_row =
  Driver :: cell
  Lineitem_name :: cell
  Count :: int
  Count_New :: pystr
  product :: "plist_row option"

definition packing_join :: "plist_row list \<Rightarrow> (pystr \<times> pystr) \<times> int \<Rightarrow> packing_row list" where
  "packing_join df_plist g =
     (case g of ((d, n), c) \<Rightarrow>
        (let ms = matches df_plist (Some n);
             row = (\<lambda>p. \<lparr>Driver = Some d, Lineitem_name = Some n, Count = c,
                           Count_New = count_new c, product = p\<rparr>)
         in if ms = [] then [row None] else map (\<lambda>p. row (Some p)) ms))"

text \<open>
  \<^verbatim>\<open>sort_values\<close> on several columns is a stable sort, ascending, NaN last in each
  column.
\<close>

definition na_last :: "'a list option \<Rightarrow> bool \<times> 'a list" where
  "na_last x = (case x of None \<Rightarrow> (True, []) | Some s \<Rightarrow> (False, s))"

definition packing_sort_key ::
  "packing_row \<Rightarrow> (bool \<times> pystr) \<times> (bool \<times> pystr) \<times> (bool \<times> pystr) \<times> (bool \<times> pystr)" where
  "packing_sort_key r =
     (na_last (packing_row.Driver r),
      na_last (map_option Product_type (product r)),
      na_last (Option.bind (product r) Variant_SKU),
      na_last (packing_row.Lineitem_name r))"

definition build_packing ::
  "digit_table \<Rightarrow> 'n final_row list \<Rightarrow> plist_row list \<Rightarrow> error + packing_row list" where
  "build_packing dv route_df df_plist =
     (case astype_int_col dv (map final_row.Item_Count route_df) of
        Inl e \<Rightarrow> Inl e
      | Inr counts \<Rightarrow>
          (let packing_df =
                 zip (map stop_cols.Driver route_df)
                   (zip (map final_row.Lineitem_name route_df) counts);
               packing_df = groupby_sum packing_df;
               packing_df = concat (map (packing_join df_plist) packing_df)
           in Inr (sort_key packing_sort_key packing_df)))"

section \<open>Workbooks\<close>

text \<open>
  A report is built in two steps. \<^verbatim>\<open>pandas\<close> and \<^verbatim>\<open>xlsxwriter\<close> write a workbook file
  with one sheet for every driver; \<^verbatim>\<open>format_excel_file\<close> reads the file with
  \<^verbatim>\<open>openpyxl\<close>, formats every sheet and writes the workbook again.

  A sheet of the file that \<^verbatim>\<open>xlsxwriter\<close> writes has a name, the values of its cells by
  row and column, and a footer. \<^verbatim>\<open>to_excel\<close> stores no cell for NaN and none for the
  empty string: \<open>Blank\<close> at a position says that the file has no cell there. What
  \<^verbatim>\<open>xlsxwriter\<close> does of its own is not modelled: its checks on a sheet name (length,
  forbidden characters, names that differ in case only), the sheet it puts into a
  workbook that got none, and what it makes of a text that starts like a formula or a
  link.
\<close>

datatype 'n xl_value = Blank | Text pystr | Number 'n

record 'n xlsx_sheet =
  sheet_name :: pystr
  sheet_values :: "'n xl_value list list"
  sheet_footer :: pystr

text \<open>
  What \<^verbatim>\<open>to_excel\<close> writes for a cell of the frame: nothing for NaN and for the empty
  string, the text or the number otherwise.
\<close>

definition text_value :: "cell \<Rightarrow> 'n xl_value" where
  "text_value x = (case x of None \<Rightarrow> Blank | Some s \<Rightarrow> if s = [] then Blank else Text s)"

definition number_value :: "'n option \<Rightarrow> 'n xl_value" where
  "number_value x = (case x of None \<Rightarrow> Blank | Some v \<Rightarrow> Number v)"

text \<open>
  \<^verbatim>\<open>final.to_excel(writer, sheet_name=driver, index=False)\<close> followed by
  \<^verbatim>\<open>set_footer\<close>: a header row with the column names, then the rows of the frame.
\<close>

definition driver_footer :: "pystr \<Rightarrow> pystr" where
  "driver_footer driver =
     py ''&C'' @ driver @ py '' &P &20 &'' @ [34] @ py ''Arial,Bold Italic'' @ [34]"

definition to_excel :: "pystr \<Rightarrow> string list \<Rightarrow> 'n xl_value list list \<Rightarrow> 'n xlsx_sheet" where
  "to_excel driver columns final =
     \<lparr>sheet_name = driver,
      sheet_values = map (Text \<circ> py) columns # final,
      sheet_footer = driver_footer driver\<rparr>"

text \<open>\<^verbatim>\<open>Series.sum\<close> skips NaN; the sum of no number is 0.\<close>

definition sum_skipna :: "('n::monoid_add) option list \<Rightarrow> 'n" where
  "sum_skipna col = sum_list (map the (filter (\<lambda>x. x \<noteq> None) col))"

subsection \<open>Formatter\<close>

text \<open>
  \<^verbatim>\<open>load_workbook\<close> reads the cells that the file stores, each at its row and column.
  Of a sheet it gives the title and these values; the alignment and the border that a
  stored cell may have are overwritten by the formatter before anything reads them, and
  the footer, which \<^verbatim>\<open>openpyxl\<close> reads and later writes back in a spelling of its own,
  is not followed any further.
\<close>

record 'n loaded_sheet =
  loaded_title :: pystr
  loaded_values :: "'n xl_value list list"

definition load_sheet :: "'n xlsx_sheet \<Rightarrow> 'n loaded_sheet" where
  "load_sheet s = \<lparr>loaded_title = sheet_name s, loaded_values = sheet_values s\<rparr>"

definition load_workbook :: "'n xlsx_sheet list \<Rightarrow> 'n loaded_sheet list" where
  "load_workbook buffer = map load_sheet buffer"

text \<open>
  The cells of a sheet span the rows from the first to the last row that has a stored
  cell (\<^verbatim>\<open>max_row\<close>) and the columns from the first to the last column that has one
  (\<^verbatim>\<open>max_column\<close>); a sheet without cells spans nothing. \<open>stored_length\<close> is the length of
  a row up to its last stored cell, \<open>cell_at\<close> the cell at a row and a column, counted
  from 0, with \<open>e\<close> where the grid has none.
\<close>

definition stored_length :: "('a \<Rightarrow> bool) \<Rightarrow> 'a list \<Rightarrow> nat" where
  "stored_length st row = length (dropWhile (\<lambda>c. \<not> st c) (rev row))"

definition max_row :: "('a \<Rightarrow> bool) \<Rightarrow> 'a list list \<Rightarrow> nat" where
  "max_row st grid = stored_length (\<lambda>row. 0 < stored_length st row) grid"

definition max_column :: "('a \<Rightarrow> bool) \<Rightarrow> 'a list list \<Rightarrow> nat" where
  "max_column st grid = foldr max (map (stored_length st) grid) 0"

definition cell_at :: "'a \<Rightarrow> 'a list list \<Rightarrow> nat \<Rightarrow> nat \<Rightarrow> 'a" where
  "cell_at e grid i j = (if i < length grid \<and> j < length (grid ! i) then grid ! i ! j else e)"

definition bounding_box :: "('a \<Rightarrow> bool) \<Rightarrow> 'a \<Rightarrow> 'a list list \<Rightarrow> 'a list list" where
  "bounding_box st e grid =
     map (\<lambda>i. map (\<lambda>j. cell_at e grid i j) [0..<max_column st grid]) [0..<max_row st grid]"

text \<open>
  \<^verbatim>\<open>ws.iter_rows()\<close> walks all these rows and, in each, all these columns, and makes a
  cell without a value wherever the sheet had none.
\<close>

definition iter_rows :: "'n loaded_sheet \<Rightarrow> 'n xl_value list list" where
  "iter_rows ws = bounding_box (\<lambda>v. v \<noteq> Blank) Blank (loaded_values ws)"

text \<open>
  A cell of the formatted workbook has a value, an alignment and a border; a worksheet
  has a title, its cells by row and column, and the cell its panes are frozen at.
\<close>

record alignment =
  horizontal :: cell
  vertical :: cell

record border =
  left_style :: cell
  right_style :: cell
  top_style :: cell
  bottom_style :: cell

record 'n xl_cell =
  cell_value :: "'n xl_value"
  cell_alignment :: alignment
  cell_border :: border

record 'n worksheet =
  title :: pystr
  rows :: "'n xl_cell list list"
  freeze_panes :: cell

definition thin_border :: border where
  "thin_border =
     \<lparr>left_style = Some (py ''thin''), right_style = Some (py ''thin''),
      top_style = Some (py ''thin''), bottom_style = Some (py ''thin'')\<rparr>"

text \<open>The two assignments of the inner loop, on the cell with the value \<open>v\<close>.\<close>

definition format_cell :: "'n xl_value \<Rightarrow> 'n xl_cell" where
  "format_cell v =
     \<lparr>cell_value = v,
      cell_alignment = \<lparr>horizontal = Some (py ''left''), vertical = Some (py ''center'')\<rparr>,
      cell_border = thin_border\<rparr>"

definition format_sheet :: "'n loaded_sheet \<Rightarrow> 'n worksheet" where
  "format_sheet ws =
     \<lparr>title = loaded_title ws,
      rows = map (map format_cell) (iter_rows ws),
      freeze_panes = Some (py ''A2'')\<rparr>"

text \<open>
  \<^verbatim>\<open>wb.save\<close> stores every cell that has a value or a style and no other cell. The
  result of \<open>wb_save\<close> stands for the bytes: it is what they hold, sheet by sheet.
\<close>

definition empty_cell :: "'n xl_cell" where
  "empty_cell =
     \<lparr>cell_value = Blank,
      cell_alignment = \<lparr>horizontal = None, vertical = None\<rparr>,
      cell_border = \<lparr>left_style = None, right_style = None, top_style = None,
                      bottom_style = None\<rparr>\<rparr>"

definition save_sheet :: "'n worksheet \<Rightarrow> 'n worksheet" where
  "save_sheet ws = ws\<lparr>rows := bounding_box (\<lambda>c. c \<noteq> empty_cell) empty_cell (rows ws)\<rparr>"

definition wb_save :: "'n worksheet list \<Rightarrow> 'n worksheet list" where
  "wb_save wb = map save_sheet wb"

definition format_excel_file :: "'n xlsx_sheet list \<Rightarrow> 'n worksheet list" where
  "format_excel_file buffer = wb_save (map format_sheet (load_workbook buffer))"

subsection \<open>Routing workbook\<close>

definition routing_columns :: "string list" where
  "routing_columns =
     [''Address'', ''Count'', ''Lineitem name'', ''Total items'', ''Note'', ''time'', ''dist'',
      ''Stop'']"

definition routing_values :: "'n final_row \<Rightarrow> 'n xl_value list" where
  "routing_values r =
     [text_value (Address r), text_value (final_row.Count r),
      text_value (final_row.Lineitem_name r), number_value (Total_items r),
      text_value (Note r), number_value (time r), number_value (dist r),
      text_value (Stop r)]"

definition routing_total :: "('n::monoid_add) final_row list \<Rightarrow> 'n xl_value list" where
  "routing_total grp =
     [Blank, Blank, Blank, Number (sum_skipna (map Total_items grp)), Blank,
      Number (sum_skipna (map time grp)), Number (sum_skipna (map dist grp)), Blank]"

definition routing_sheet :: "pystr \<Rightarrow> ('n::monoid_add) final_row list \<Rightarrow> 'n xlsx_sheet" where
  "routing_sheet driver grp =
     to_excel driver routing_columns (map routing_values grp @ [routing_total grp])"

definition create_routing_file :: "('n::monoid_add) final_row list \<Rightarrow> 'n worksheet list" where
  "create_routing_file route_df =
     format_excel_file
       (map (\<lambda>(driver, grp). routing_sheet driver grp) (groupby stop_cols.Driver route_df))"

subsection \<open>Packing workbook\<close>

definition packing_columns :: "string list" where
  "packing_columns =
     [''Product type'', ''Count_New'', ''Lineitem name'', ''Count'', ''Variant SKU'', ''Vendor'']"

definition packing_values :: "packing_row \<Rightarrow> int xl_value list" where
  "packing_values r =
     [text_value (map_option Product_type (product r)), text_value (Some (Count_New r)),
      text_value (packing_row.Lineitem_name r), Number (packing_row.Count r),
      text_value (Option.bind (product r) Variant_SKU),
      text_value (Option.bind (product r) Vendor)]"

definition packing_total :: "packing_row list \<Rightarrow> int xl_value list" where
  "packing_total grp =
     [Blank, Blank, Blank, Number (sum_list (map packing_row.Count grp)), Blank, Blank]"

definition packing_sheet :: "pystr \<Rightarrow> packing_row list \<Rightarrow> int xlsx_sheet" where
  "packing_sheet driver grp =
     to_excel driver packing_columns (map packing_values grp @ [packing_total grp])"

definition create_packing_file :: "packing_row list \<Rightarrow> int worksheet list" where
  "create_packing_file packing_df =
     format_excel_file
       (map (\<lambda>(driver, grp). packing_sheet driver grp)
          (groupby packing_row.Driver packing_df))"

section \<open>The whole run (lines 125 to 148)\<close>

text \<open>
  Both tables are built before either workbook is; an error leaves no workbook. The
  result is the routing workbook and the packing workbook.
\<close>

definition generate ::
  "digit_table \<Rightarrow> lower_table \<Rightarrow> ('n::monoid_add) route_row list \<Rightarrow> 'a catalog_row_scheme list \<Rightarrow>
     error + ('n worksheet list \<times> int worksheet list)" where
  "generate dv lc route_file products_file =
     (case process_data dv lc route_file products_file of (route_df, df_plist) \<Rightarrow>
        (case build_packing dv route_df df_plist of
           Inl e \<Rightarrow> Inl e
         | Inr packing_df \<Rightarrow> Inr (create_routing_file route_df, create_packing_file packing_df)))"

section \<open>Example tables\<close>

text \<open>
  A small route table and a small catalog for concrete evaluations. The second stop has
  no driver and no address of its own, and the catalog row of the eggs has no tag.
\<close>

definition delivery :: "cell \<Rightarrow> cell \<Rightarrow> cell \<Rightarrow> int route_row" where
  "delivery driver address items =
     \<lparr>stop_cols.Driver = driver, Stop = Some (py ''1''), Shipping_name = Some (py ''Lee''),
      Address = address, Total_items = Some 2, Note = None, time = Some 10, dist = Some 4,
      Route = Some (py ''North''), Items = items\<rparr>"

definition entry :: "string \<Rightarrow> cell \<Rightarrow> string \<Rightarrow> catalog_row" where
  "entry t tags sku =
     \<lparr>Title = Some (py t), Tags = tags, Variant_SKU = Some (py sku), Vendor = Some (py ''Farm'')\<rparr>"

definition example_routes :: "int route_row list" where
  "example_routes =
     [delivery (Some (py ''Bob'')) (Some (py ''5 Elm St, Kent'')) (Some (py ''2x Milk'')),
      delivery None None (Some (py ''1x Eggs'')),
      delivery (Some (py ''Ann'')) (Some (py ''9 Oak Rd'')) (Some (py ''3x Rice''))]"

definition example_catalog :: "catalog_row list" where
  "example_catalog =
     [entry ''Milk'' (Some (py ''Dairy '' @ kw_cool)) ''M-1'',
      entry ''Rice'' (Some kw_general) ''R-1'',
      entry ''Eggs'' None ''E-1'']"

section \<open>Notions of the specification\<close>

text \<open>A text contains a keyword when the keyword is a contiguous part of it.\<close>

definition contains :: "pystr \<Rightarrow> pystr \<Rightarrow> bool" where
  "contains t k = (\<exists>pre post. t = pre @ k @ post)"

text \<open>
  The sum of a column of a sheet: the numbers in the cells at position \<open>j\<close> of the given
  rows, added up; a cell that holds no number adds nothing.
\<close>

definition column_sum :: "nat \<Rightarrow> ('n::monoid_add) xl_cell list list \<Rightarrow> 'n" where
  "column_sum j data =
     sum_list (concat (map (\<lambda>row. case cell_value (row ! j) of Number v \<Rightarrow> [v] | _ \<Rightarrow> []) data))"

text \<open>The item count of a merged route row as a number; a cell that is no number counts 0.\<close>

definition count_value :: "digit_table \<Rightarrow> cell \<Rightarrow> int" where
  "count_value dv x = (case astype_int dv x of Inl e \<Rightarrow> 0 | Inr n \<Rightarrow> n)"

section \<open>Properties\<close>

subsection \<open>Classifier\<close>

lemma starts_with_iff: "starts_with k t \<longleftrightarrow> (\<exists>post. t = k @ post)"
  by (induction k t rule: starts_with.induct) auto

lemma py_in_iff: "py_in k t \<longleftrightarrow> (\<exists>pre post. t = pre @ k @ post)"
proof (induction t)
  case Nil
  then show ?case by simp
next
  case (Cons c t)
  show ?case
  proof
    assume "py_in k (c # t)"
    then consider "starts_with k (c # t)" | "py_in k t" by auto
    then show "\<exists>pre post. c # t = pre @ k @ post"
    proof cases
      case 1
      then obtain post where "c # t = k @ post" using starts_with_iff by blast
      then have "c # t = [] @ k @ post" by simp
      then show ?thesis by blast
    next
      case 2
      then obtain pre post where "t = pre @ k @ post" using Cons.IH by blast
      then have "c # t = (c # pre) @ k @ post" by simp
      then show ?thesis by blast
    qed
  next
    assume "\<exists>pre post. c # t = pre @ k @ post"
    then obtain pre post where e: "c # t = pre @ k @ post" by blast
    show "py_in k (c # t)"
    proof (cases pre)
      case Nil
      with e have "starts_with k (c # t)" using starts_with_iff by auto
      then show ?thesis by simp
    next
      case (Cons a pre')
      with e have "t = pre' @ k @ post" by simp
      then have "py_in k t" using Cons.IH by blast
      then show ?thesis by simp
    qed
  qed
qed

lemma lower_empty: "lower lc [] = []"
  by (simp add: lower_def)

lemma classify_empty: "determine_product_type lc (Some []) = py ''other''"
  by (simp add: determine_product_type_def lower_empty py_str_def
      kw_vege_def kw_subscription_def kw_cool_def kw_general_def)

lemma classify_range:
  "determine_product_type lc tag \<in> {py ''vege & fruit'', py ''cool'', py ''general'', py ''other''}"
  by (simp add: determine_product_type_def Let_def)

text \<open>
  Claim C2. \<open>determine_product_type\<close> is a function of the tag alone, defined on every
  cell. It looks for the keywords in the lower-cased tag, in a fixed order of priority:
  the first or the second keyword gives \<^verbatim>\<open>vege & fruit\<close>, else the third gives
  \<^verbatim>\<open>cool\<close>, else the fourth gives \<^verbatim>\<open>general\<close>, else the result is \<^verbatim>\<open>other\<close>. Two
  tags that differ only in case get the same category, the empty tag gets \<^verbatim>\<open>other\<close>,
  and no other category exists.
\<close>

theorem determine_product_type_priority:
  "determine_product_type lc tag =
     (if contains (lower lc (py_str tag)) kw_vege \<or> contains (lower lc (py_str tag)) kw_subscription
        then py ''vege & fruit''
      else if contains (lower lc (py_str tag)) kw_cool then py ''cool''
      else if contains (lower lc (py_str tag)) kw_general then py ''general''
      else py ''other'')
   \<and> (lower lc (py_str tag) = lower lc (py_str tag') \<longrightarrow>
        determine_product_type lc tag = determine_product_type lc tag')
   \<and> determine_product_type lc (Some []) = py ''other''
   \<and> determine_product_type lc tag \<in> {py ''vege & fruit'', py ''cool'', py ''general'', py ''other''}"
proof (intro conjI)
  show "determine_product_type lc tag =
     (if contains (lower lc (py_str tag)) kw_vege \<or> contains (lower lc (py_str tag)) kw_subscription
        then py ''vege & fruit''
      else if contains (lower lc (py_str tag)) kw_cool then py ''cool''
      else if contains (lower lc (py_str tag)) kw_general then py ''general''
      else py ''other'')"
    by (simp add: determine_product_type_def contains_def py_in_iff Let_def)
  show "lower lc (py_str tag) = lower lc (py_str tag') \<longrightarrow>
        determine_product_type lc tag = determine_product_type lc tag'"
    by (simp add: determine_product_type_def)
  show "determine_product_type lc (Some []) = py ''other''"
    by (rule classify_empty)
  show "determine_product_type lc tag \<in> {py ''vege & fruit'', py ''cool'', py ''general'', py ''other''}"
    by (rule classify_range)
qed

theorem determine_product_type_priority_witness:
  "lower ascii_lc (py_str (Some (py ''Frozen A '' @ kw_cool @ kw_general)))
     = lower ascii_lc (py_str (Some (py ''frozen a '' @ kw_cool @ kw_general)))
   \<and> determine_product_type ascii_lc (Some (py ''Frozen A '' @ kw_cool @ kw_general))
     = determine_product_type ascii_lc (Some (py ''frozen a '' @ kw_cool @ kw_general))
   \<and> determine_product_type ascii_lc (Some (py ''frozen a '' @ kw_cool @ kw_general)) = py ''cool''"
  using determine_product_type_priority
    [of ascii_lc "Some (py ''Frozen A '' @ kw_cool @ kw_general)"
        "Some (py ''frozen a '' @ kw_cool @ kw_general)"]
  by (simp add: determine_product_type_def lower_def py_str_def py_def ascii_lc_def
      kw_vege_def kw_subscription_def kw_cool_def kw_general_def)

subsection \<open>Product catalog\<close>

lemma truncate_add_product_type: "catalog_row.truncate (add_product_type lc r) = r"
  by (cases r) (simp add: add_product_type_def catalog_row.truncate_def catalog_row.extend_def)

lemma parse_catalog_truncate:
  "map catalog_row.truncate (parse_catalog lc products_data)
     = filter (\<lambda>r. Tags r \<noteq> None) (map catalog_row.truncate products_data)"
  by (simp add: parse_catalog_def select_columns_def dropna_Tags_def comp_def
      truncate_add_product_type)

lemma parse_catalog_row:
  "r \<in> set (parse_catalog lc products_data) \<Longrightarrow>
     Tags r \<noteq> None \<and> Product_type r = determine_product_type lc (Tags r)
       \<and> plist_row.Lineitem_name r = Title r"
  by (auto simp: parse_catalog_def select_columns_def dropna_Tags_def add_product_type_def
      catalog_row.extend_def plist_row.fields_def)

text \<open>
  Claim C8. The parsed catalog holds, in the order of the file, the four columns
  \<^verbatim>\<open>Title\<close>, \<^verbatim>\<open>Tags\<close>, \<^verbatim>\<open>Variant SKU\<close> and \<^verbatim>\<open>Vendor\<close> of exactly the rows that have a
  tag; each of its rows carries the product type computed from its tag (and the title once
  more, as the join key); no row without a tag is in it.
\<close>

theorem parse_catalog_rows:
  "map catalog_row.truncate (parse_catalog lc products_data)
     = filter (\<lambda>r. Tags r \<noteq> None) (map catalog_row.truncate products_data)
   \<and> (\<forall>r \<in> set (parse_catalog lc products_data).
        Tags r \<noteq> None \<and> Product_type r = determine_product_type lc (Tags r)
          \<and> plist_row.Lineitem_name r = Title r)
   \<and> (\<forall>r \<in> set products_data. Tags r = None \<longrightarrow>
        catalog_row.truncate r \<notin> set (map catalog_row.truncate (parse_catalog lc products_data)))"
proof (intro conjI ballI impI)
  show "map catalog_row.truncate (parse_catalog lc products_data)
     = filter (\<lambda>r. Tags r \<noteq> None) (map catalog_row.truncate products_data)"
    by (rule parse_catalog_truncate)
next
  fix r assume "r \<in> set (parse_catalog lc products_data)"
  from parse_catalog_row [OF this]
  show "Tags r \<noteq> None" "Product_type r = determine_product_type lc (Tags r)"
    "plist_row.Lineitem_name r = Title r" by simp_all
next
  fix r assume "r \<in> set products_data" and "Tags r = None"
  then have "Tags (catalog_row.truncate r) = None" by (simp add: catalog_row.truncate_def)
  then show "catalog_row.truncate r \<notin> set (map catalog_row.truncate (parse_catalog lc products_data))"
    unfolding parse_catalog_truncate by auto
qed

theorem parse_catalog_rows_witness:
  "parse_catalog ascii_lc
     [\<lparr>Title = Some (py ''Milk''), Tags = Some (py ''Dairy, '' @ kw_cool), Variant_SKU = Some (py ''M-1''),
        Vendor = Some (py ''Farm''), \<dots> = Some (py ''milk'')\<rparr>,
      \<lparr>Title = Some (py ''Milk 2L''), Tags = None, Variant_SKU = Some (py ''M-2''),
        Vendor = None, \<dots> = Some (py ''milk'')\<rparr>]
   = [\<lparr>Title = Some (py ''Milk''), Tags = Some (py ''Dairy, '' @ kw_cool), Variant_SKU = Some (py ''M-1''),
        Vendor = Some (py ''Farm''), Product_type = py ''cool'', Lineitem_name = Some (py ''Milk'')\<rparr>]"
  using parse_catalog_rows [of ascii_lc
     "[\<lparr>Title = Some (py ''Milk''), Tags = Some (py ''Dairy, '' @ kw_cool), Variant_SKU = Some (py ''M-1''),
        Vendor = Some (py ''Farm''), \<dots> = Some (py ''milk'')\<rparr>,
      \<lparr>Title = Some (py ''Milk 2L''), Tags = None, Variant_SKU = Some (py ''M-2''),
        Vendor = None, \<dots> = Some (py ''milk'')\<rparr>]"]
  by (simp add: parse_catalog_def select_columns_def dropna_Tags_def add_product_type_def
      catalog_row.truncate_def catalog_row.extend_def plist_row.fields_def
      determine_product_type_def lower_def py_str_def py_def ascii_lc_def
      kw_vege_def kw_subscription_def kw_cool_def kw_general_def)

subsection \<open>Formatter\<close>

lemma stored_length_le: "stored_length st row \<le> length row"
proof -
  have "length (dropWhile (\<lambda>c. \<not> st c) (rev row)) \<le> length (rev row)"
    by (rule length_dropWhile_le)
  then show ?thesis by (simp add: stored_length_def)
qed

lemma beyond_stored_length:
  assumes "stored_length st row \<le> j" and "j < length row"
  shows "\<not> st (row ! j)"
proof -
  let ?P = "\<lambda>c. \<not> st c"
  let ?k = "length row - Suc j"
  have len: "length (takeWhile ?P (rev row)) + stored_length st row = length row"
    unfolding stored_length_def
    by (metis length_append length_rev takeWhile_dropWhile_id)
  with assms have k: "?k < length (takeWhile ?P (rev row))" by linarith
  then have "takeWhile ?P (rev row) ! ?k = rev row ! ?k"
    by (rule takeWhile_nth)
  also have "\<dots> = row ! j"
    using assms(2) by (simp add: rev_nth)
  finally have "row ! j \<in> set (takeWhile ?P (rev row))"
    using k by (metis nth_mem)
  then show ?thesis by (rule set_takeWhileD [THEN conjunct2])
qed

lemma stored_length_full:
  assumes "row \<noteq> []" and "st (last row)"
  shows "stored_length st row = length row"
proof -
  from assms(1) obtain c cs where r: "rev row = c # cs" by (cases "rev row") auto
  with assms have "st c" by (metis hd_rev list.sel(1))
  with r have "length (dropWhile (\<lambda>c. \<not> st c) (rev row)) = length (rev row)"
    by simp
  then show ?thesis by (simp add: stored_length_def)
qed

lemma stored_length_0: "stored_length st row = 0 \<longleftrightarrow> (\<forall>c \<in> set row. \<not> st c)"
  by (simp add: stored_length_def dropWhile_eq_Nil_conv)

lemma max_row_le: "max_row st grid \<le> length grid"
  unfolding max_row_def by (rule stored_length_le)

lemma beyond_max_row:
  assumes "max_row st grid \<le> i" and "i < length grid" and "j < length (grid ! i)"
  shows "\<not> st (grid ! i ! j)"
proof -
  from assms(1,2) have "\<not> 0 < stored_length st (grid ! i)"
    unfolding max_row_def by (rule beyond_stored_length)
  with assms(3) show ?thesis by (simp add: stored_length_0)
qed

lemma stored_length_le_max_column:
  "row \<in> set grid \<Longrightarrow> stored_length st row \<le> max_column st grid"
  by (induction grid) (auto simp: max_column_def)

lemma beyond_max_column:
  assumes "max_column st grid \<le> j" and "i < length grid" and "j < length (grid ! i)"
  shows "\<not> st (grid ! i ! j)"
proof -
  from assms(2) have "stored_length st (grid ! i) \<le> max_column st grid"
    by (intro stored_length_le_max_column) simp
  with assms(1) have "stored_length st (grid ! i) \<le> j" by simp
  from this assms(3) show ?thesis by (rule beyond_stored_length)
qed

lemma length_bounding_box: "length (bounding_box st e grid) = max_row st grid"
  by (simp add: bounding_box_def)

lemma bounding_box_row:
  "i < max_row st grid \<Longrightarrow>
     bounding_box st e grid ! i = map (\<lambda>j. cell_at e grid i j) [0..<max_column st grid]"
  by (simp add: bounding_box_def)

lemma cell_at_bounding_box:
  assumes "\<And>c. \<not> st c \<Longrightarrow> c = e"
  shows "cell_at e (bounding_box st e grid) i j = cell_at e grid i j"
proof (cases "i < max_row st grid \<and> j < max_column st grid")
  case True
  then show ?thesis
    by (simp add: cell_at_def [of e "bounding_box st e grid"] length_bounding_box bounding_box_row)
next
  case False
  then have out: "cell_at e (bounding_box st e grid) i j = e"
    by (auto simp: cell_at_def [of e "bounding_box st e grid"] length_bounding_box bounding_box_row)
  show ?thesis
  proof (cases "i < length grid \<and> j < length (grid ! i)")
    case inside: True
    from False have "max_row st grid \<le> i \<or> max_column st grid \<le> j" by auto
    with inside have "\<not> st (grid ! i ! j)"
      using beyond_max_row beyond_max_column by blast
    with assms have "grid ! i ! j = e" by blast
    with inside out show ?thesis by (simp add: cell_at_def)
  next
    case False
    with out show ?thesis by (auto simp: cell_at_def)
  qed
qed


lemma max_column_le:
  "\<forall>row \<in> set grid. stored_length st row \<le> n \<Longrightarrow> max_column st grid \<le> n"
  by (induction grid) (auto simp: max_column_def)

lemma bounding_box_full:
  assumes "grid \<noteq> []" and len: "\<forall>row \<in> set grid. length row = n"
    and "\<exists>row \<in> set grid. stored_length st row = n"
    and "0 < stored_length st (last grid)"
  shows "bounding_box st e grid = grid"
proof -
  have r: "max_row st grid = length grid"
    unfolding max_row_def using assms(1,4) by (rule stored_length_full)
  have "max_column st grid \<le> n"
    using len by (intro max_column_le) (metis stored_length_le)
  moreover have "n \<le> max_column st grid"
    using assms(3) stored_length_le_max_column by metis
  ultimately have c: "max_column st grid = n" by simp
  show ?thesis
  proof (rule nth_equalityI)
    show "length (bounding_box st e grid) = length grid"
      by (simp add: length_bounding_box r)
  next
    fix i assume "i < length (bounding_box st e grid)"
    then have i: "i < length grid" by (simp add: length_bounding_box r)
    with len have n: "length (grid ! i) = n" by simp
    have "bounding_box st e grid ! i = map (\<lambda>j. cell_at e grid i j) [0..<n]"
      using i by (simp add: bounding_box_row r c)
    also have "\<dots> = grid ! i"
      using i n by (intro nth_equalityI) (simp_all add: cell_at_def)
    finally show "bounding_box st e grid ! i = grid ! i" .
  qed
qed

lemma max_column_pos:
  assumes "0 < max_row st grid"
  shows "0 < max_column st grid"
proof -
  from assms have "\<not> (\<forall>row \<in> set grid. \<not> 0 < stored_length st row)"
    unfolding max_row_def stored_length_0 [symmetric] by simp
  then obtain row where "row \<in> set grid" and "0 < stored_length st row" by blast
  with stored_length_le_max_column [of row grid st] show ?thesis by simp
qed

lemma format_cell_not_empty: "format_cell v \<noteq> empty_cell"
  by (simp add: format_cell_def empty_cell_def)

lemma save_formatted:
  "bounding_box (\<lambda>c. c \<noteq> empty_cell) empty_cell (map (map format_cell) (bounding_box st e grid))
     = map (map format_cell) (bounding_box st e grid)"
proof (cases "max_row st grid = 0")
  case True
  then have "bounding_box st e grid = []" by (simp add: bounding_box_def)
  then show ?thesis by (simp add: bounding_box_def max_row_def stored_length_def)
next
  case False
  let ?box = "map (map format_cell) (bounding_box st e grid)"
  let ?n = "max_column st grid"
  from False have ne: "?box \<noteq> []"
    by (metis length_bounding_box length_0_conv map_is_Nil_conv)
  from False have n: "0 < ?n" by (intro max_column_pos) simp
  have len: "\<forall>row \<in> set ?box. length row = ?n"
    by (auto simp: bounding_box_def)
  have full: "stored_length (\<lambda>c. c \<noteq> empty_cell) row = ?n" if "row \<in> set ?box" for row
  proof -
    from that len n have "row \<noteq> []" and l: "length row = ?n" by auto
    moreover from that obtain vs where "row = map format_cell vs" by auto
    with \<open>row \<noteq> []\<close> have "last row = format_cell (last vs)"
      by (simp add: last_map)
    then have "last row \<noteq> empty_cell"
      by (simp add: format_cell_not_empty)
    ultimately show ?thesis by (simp add: stored_length_full)
  qed
  from ne have "last ?box \<in> set ?box" by (rule last_in_set)
  with full n have "0 < stored_length (\<lambda>c. c \<noteq> empty_cell) (last ?box)" by simp
  moreover from ne full have "\<exists>row \<in> set ?box. stored_length (\<lambda>c. c \<noteq> empty_cell) row = ?n"
    by (metis last_in_set)
  ultimately show ?thesis
    using ne len by (intro bounding_box_full)
qed

lemma rows_formatted:
  "rows (save_sheet (format_sheet ws)) = map (map format_cell) (iter_rows ws)"
  by (simp add: save_sheet_def format_sheet_def iter_rows_def save_formatted)

lemma cell_value_format_cell: "cell_value (format_cell v) = v"
  by (simp add: format_cell_def)

lemma formatted_fields:
  "title (save_sheet (format_sheet (load_sheet s))) = sheet_name s"
  "freeze_panes (save_sheet (format_sheet (load_sheet s))) = Some (py ''A2'')"
  by (simp_all add: save_sheet_def format_sheet_def load_sheet_def)

lemma formatted_values:
  "map (map cell_value) (rows (save_sheet (format_sheet (load_sheet s))))
     = bounding_box (\<lambda>v. v \<noteq> Blank) Blank (sheet_values s)"
  by (simp add: rows_formatted iter_rows_def load_sheet_def comp_def cell_value_format_cell)

lemma cell_at_values_box:
  "cell_at Blank (bounding_box (\<lambda>v. v \<noteq> Blank) Blank grid) i j = cell_at Blank grid i j"
  by (rule cell_at_bounding_box) simp

lemma format_excel_file_eq:
  "format_excel_file buffer = map (\<lambda>s. save_sheet (format_sheet (load_sheet s))) buffer"
  by (simp add: format_excel_file_def wb_save_def load_workbook_def)

lemma format_sheets:
  "format_excel_file buffer
     = map (\<lambda>s. \<lparr>title = sheet_name s,
                 rows = map (map format_cell) (bounding_box (\<lambda>v. v \<noteq> Blank) Blank (sheet_values s)),
                 freeze_panes = Some (py ''A2'')\<rparr>) buffer"
  by (simp add: format_excel_file_eq save_sheet_def format_sheet_def load_sheet_def iter_rows_def
      save_formatted)

lemma format_titles: "map title (format_excel_file buffer) = map sheet_name buffer"
  by (simp add: format_excel_file_eq formatted_fields comp_def)

lemma format_freeze:
  "ws \<in> set (format_excel_file buffer) \<Longrightarrow> freeze_panes ws = Some (py ''A2'')"
  by (auto simp: format_excel_file_eq formatted_fields)

lemma format_style:
  assumes "ws \<in> set (format_excel_file buffer)" and "row \<in> set (rows ws)" and "c \<in> set row"
  shows "cell_alignment c = \<lparr>horizontal = Some (py ''left''), vertical = Some (py ''center'')\<rparr>
       \<and> cell_border c = thin_border"
proof -
  from assms(1) obtain s where "ws = save_sheet (format_sheet (load_sheet s))"
    by (auto simp: format_excel_file_eq)
  with assms(2,3) obtain v where "c = format_cell v"
    by (auto simp: rows_formatted)
  then show ?thesis by (simp add: format_cell_def)
qed

lemma format_values:
  assumes "k < length buffer"
  shows "cell_at Blank (map (map cell_value) (rows (format_excel_file buffer ! k))) i j
       = cell_at Blank (sheet_values (buffer ! k)) i j"
  using assms by (simp add: format_excel_file_eq formatted_values cell_at_values_box)

text \<open>
  Claim C9. In the workbook that \<open>format_excel_file\<close> returns, every sheet of the
  workbook that came in is there under its title and is frozen at \<^verbatim>\<open>A2\<close>, which keeps
  the first row in place; every cell of every sheet is aligned left and centred
  vertically and has a thin border on its four sides; and at every row and column of
  every sheet the value is the one the workbook that came in has there, no value where
  it has none. The cells of a sheet are those of the rows and columns up to the last
  row and the last column in which the sheet that came in has a cell.
\<close>

theorem format_excel_file_frame:
  "map title (format_excel_file buffer) = map sheet_name buffer
   \<and> (\<forall>ws \<in> set (format_excel_file buffer).
      freeze_panes ws = Some (py ''A2'')
      \<and> (\<forall>row \<in> set (rows ws). \<forall>c \<in> set row.
            horizontal (cell_alignment c) = Some (py ''left'')
            \<and> vertical (cell_alignment c) = Some (py ''center'')
            \<and> left_style (cell_border c) = Some (py ''thin'')
            \<and> right_style (cell_border c) = Some (py ''thin'')
            \<and> top_style (cell_border c) = Some (py ''thin'')
            \<and> bottom_style (cell_border c) = Some (py ''thin'')))
   \<and> (\<forall>k < length buffer. \<forall>i j.
        cell_at Blank (map (map cell_value) (rows (format_excel_file buffer ! k))) i j
          = cell_at Blank (sheet_values (buffer ! k)) i j)
   \<and> format_excel_file buffer
       = map (\<lambda>s. \<lparr>title = sheet_name s,
                   rows = map (map format_cell)
                            (bounding_box (\<lambda>v. v \<noteq> Blank) Blank (sheet_values s)),
                   freeze_panes = Some (py ''A2'')\<rparr>) buffer"
proof (intro conjI ballI allI impI)
  show "map title (format_excel_file buffer) = map sheet_name buffer"
    by (rule format_titles)
next
  fix ws assume ws: "ws \<in> set (format_excel_file buffer)"
  show "freeze_panes ws = Some (py ''A2'')" using ws by (rule format_freeze)
  fix row c assume "row \<in> set (rows ws)" "c \<in> set row"
  from format_style [OF ws this]
  show "horizontal (cell_alignment c) = Some (py ''left'')"
    "vertical (cell_alignment c) = Some (py ''center'')"
    "left_style (cell_border c) = Some (py ''thin'')"
    "right_style (cell_border c) = Some (py ''thin'')"
    "top_style (cell_border c) = Some (py ''thin'')"
    "bottom_style (cell_border c) = Some (py ''thin'')"
    by (simp_all add: thin_border_def)
next
  fix k i j assume "k < length buffer"
  then show "cell_at Blank (map (map cell_value) (rows (format_excel_file buffer ! k))) i j
          = cell_at Blank (sheet_values (buffer ! k)) i j"
    by (rule format_values)
next
  show "format_excel_file buffer
       = map (\<lambda>s. \<lparr>title = sheet_name s,
                   rows = map (map format_cell)
                            (bounding_box (\<lambda>v. v \<noteq> Blank) Blank (sheet_values s)),
                   freeze_panes = Some (py ''A2'')\<rparr>) buffer"
    by (rule format_sheets)
qed

text \<open>The definitions that a concrete evaluation of the formatter unfolds.\<close>

lemmas box_defs =
  format_excel_file_def wb_save_def load_workbook_def save_sheet_def format_sheet_def
  load_sheet_def iter_rows_def bounding_box_def max_row_def max_column_def stored_length_def
  cell_at_def format_cell_def empty_cell_def to_excel_def

theorem format_excel_file_frame_witness:
  "format_excel_file
     [to_excel (py ''Ann'') [''Count'', ''Vendor''] [[Number (2::int), Blank], [Blank, Blank]]]
   = [\<lparr>title = py ''Ann'',
       rows = map (map (\<lambda>v. \<lparr>cell_value = v,
                 cell_alignment = \<lparr>horizontal = Some (py ''left''), vertical = Some (py ''center'')\<rparr>,
                 cell_border = thin_border\<rparr>))
                [[Text (py ''Count''), Text (py ''Vendor'')], [Number 2, Blank]],
       freeze_panes = Some (py ''A2'')\<rparr>]"
  using format_excel_file_frame
    [of "[to_excel (py ''Ann'') [''Count'', ''Vendor''] [[Number (2::int), Blank], [Blank, Blank]]]"]
  by (simp add: box_defs thin_border_def py_def upt_rec)

subsection \<open>Evaluation\<close>

text \<open>The definitions that a concrete evaluation of \<open>process_data\<close> unfolds.\<close>

lemmas table_defs =
  example_routes_def example_catalog_def delivery_def entry_def
  process_data_def parse_routes_def parse_catalog_def select_columns_def dropna_Tags_def
  add_product_type_def determine_product_type_def lower_def py_str_def py_def ascii_lc_def
  kw_vege_def kw_subscription_def kw_cool_def kw_general_def
  ffill_cols_def address_processing_def assign_def ffill_def split_comma_first_def
  extract_items_def str_from_3_def str_upto_3_def extract_digits_def is_digit_def
  ascii_digits_def merge_left_def join_row_def matches_def count_field_def final_cols_def
  catalog_row.truncate_def catalog_row.extend_def plist_row.fields_def
  route_row.extend_def items_row.fields_def items_row.extend_def merged_row.fields_def
  stop_cols.truncate_def stop_cols.extend_def final_row.fields_def items_row.truncate_def
  Let_def

subsection \<open>Merge\<close>

lemma length_join_row:
  "length (join_row df_plist l) = max 1 (length (matches df_plist (items_row.Lineitem_name l)))"
  by (cases "matches df_plist (items_row.Lineitem_name l)") (simp_all add: join_row_def Let_def)

lemma truncate_join_row:
  "map items_row.truncate (join_row df_plist l)
     = replicate (max 1 (length (matches df_plist (items_row.Lineitem_name l)))) (items_row.truncate l)"
  by (cases "matches df_plist (items_row.Lineitem_name l)")
     (simp_all add: join_row_def Let_def items_row.truncate_def items_row.extend_def
        map_replicate_const comp_def)

lemma length_merge_left:
  "length (merge_left route_df df_plist)
     = (\<Sum>l\<leftarrow>route_df. max 1 (length (matches df_plist (items_row.Lineitem_name l))))"
  by (simp add: merge_left_def length_concat comp_def length_join_row)

lemma sum_list_max1:
  fixes f :: "'a \<Rightarrow> nat"
  shows "length xs \<le> (\<Sum>x\<leftarrow>xs. max 1 (f x))"
    and "(\<Sum>x\<leftarrow>xs. max 1 (f x)) = length xs \<longleftrightarrow> (\<forall>x \<in> set xs. f x \<le> 1)"
proof -
  show le: "length xs \<le> (\<Sum>x\<leftarrow>xs. max 1 (f x))" for xs
    by (induction xs) auto
  show "(\<Sum>x\<leftarrow>xs. max 1 (f x)) = length xs \<longleftrightarrow> (\<forall>x \<in> set xs. f x \<le> 1)"
  proof (induction xs)
    case Nil
    then show ?case by simp
  next
    case (Cons a xs)
    with le [of xs] show ?case by (auto simp: max_def)
  qed
qed

lemma catalog_join_row:
  assumes "m \<in> set (join_row df_plist l)"
  shows "case catalog m of
        None \<Rightarrow> matches df_plist (items_row.Lineitem_name m) = []
      | Some p \<Rightarrow> p \<in> set df_plist \<and> plist_row.Lineitem_name p = items_row.Lineitem_name m"
proof (cases "matches df_plist (items_row.Lineitem_name l) = []")
  case True
  with assms have "m = items_row.extend l (merged_row.fields None)"
    by (simp add: join_row_def)
  with True show ?thesis
    by (simp add: items_row.extend_def merged_row.fields_def)
next
  case False
  with assms obtain p where p: "p \<in> set (matches df_plist (items_row.Lineitem_name l))"
    and m: "m = items_row.extend l (merged_row.fields (Some p))"
    by (auto simp: join_row_def)
  from p have "p \<in> set df_plist \<and> plist_row.Lineitem_name p = items_row.Lineitem_name l"
    by (simp add: matches_def)
  with m show ?thesis
    by (simp add: items_row.extend_def merged_row.fields_def)
qed

text \<open>
  Claim C4, as amended. The merge is a left outer join on the item name: it has at least
  as many rows as the route table, and exactly as many if and only if every item name
  matches at most one row of the parsed catalog. Every route row is kept, in order, once
  when nothing matches and once per matching catalog row otherwise; the catalog columns
  of a row are NaN when nothing matches and are those of a matching catalog row
  otherwise.
\<close>

theorem merge_left_cardinality:
  "length route_df \<le> length (merge_left route_df df_plist)
   \<and> (length (merge_left route_df df_plist) = length route_df \<longleftrightarrow>
        (\<forall>l \<in> set route_df. length (matches df_plist (items_row.Lineitem_name l)) \<le> 1))
   \<and> map items_row.truncate (merge_left route_df df_plist)
        = concat (map (\<lambda>l. replicate (max 1 (length (matches df_plist (items_row.Lineitem_name l))))
                         (items_row.truncate l)) route_df)
   \<and> (\<forall>m \<in> set (merge_left route_df df_plist).
        case catalog m of
          None \<Rightarrow> matches df_plist (items_row.Lineitem_name m) = []
        | Some p \<Rightarrow> p \<in> set df_plist \<and> plist_row.Lineitem_name p = items_row.Lineitem_name m)"
proof (intro conjI ballI)
  show "length route_df \<le> length (merge_left route_df df_plist)"
    unfolding length_merge_left by (rule sum_list_max1)
  show "length (merge_left route_df df_plist) = length route_df \<longleftrightarrow>
        (\<forall>l \<in> set route_df. length (matches df_plist (items_row.Lineitem_name l)) \<le> 1)"
    unfolding length_merge_left by (rule sum_list_max1)
  show "map items_row.truncate (merge_left route_df df_plist)
        = concat (map (\<lambda>l. replicate (max 1 (length (matches df_plist (items_row.Lineitem_name l))))
                         (items_row.truncate l)) route_df)"
    by (simp add: merge_left_def map_concat comp_def truncate_join_row)
next
  fix m assume "m \<in> set (merge_left route_df df_plist)"
  then obtain l where "m \<in> set (join_row df_plist l)" by (auto simp: merge_left_def)
  then show "case catalog m of
          None \<Rightarrow> matches df_plist (items_row.Lineitem_name m) = []
        | Some p \<Rightarrow> p \<in> set df_plist \<and> plist_row.Lineitem_name p = items_row.Lineitem_name m"
    by (rule catalog_join_row)
qed


theorem merge_left_cardinality_witness:
  "length (merge_left (parse_routes ascii_digits example_routes)
             (parse_catalog ascii_lc (example_catalog @ [entry ''Milk'' (Some kw_vege) ''M-2''])))
     = 4
   \<and> length (parse_routes ascii_digits example_routes) = 3
   \<and> length (matches (parse_catalog ascii_lc (example_catalog @ [entry ''Milk'' (Some kw_vege) ''M-2'']))
               (items_row.Lineitem_name (hd (parse_routes ascii_digits example_routes)))) = 2"
proof -
  have "length (merge_left (parse_routes ascii_digits example_routes)
             (parse_catalog ascii_lc (example_catalog @ [entry ''Milk'' (Some kw_vege) ''M-2''])))
     = 4"
    by (simp add: table_defs)
  moreover have "length (parse_routes ascii_digits example_routes) = 3"
    by (simp add: table_defs)
  moreover have "length (matches (parse_catalog ascii_lc (example_catalog @ [entry ''Milk'' (Some kw_vege) ''M-2'']))
               (items_row.Lineitem_name (hd (parse_routes ascii_digits example_routes)))) = 2"
    by (simp add: table_defs)
  ultimately show ?thesis
    using merge_left_cardinality [of "parse_routes ascii_digits example_routes"
        "parse_catalog ascii_lc (example_catalog @ [entry ''Milk'' (Some kw_vege) ''M-2''])"]
    by simp
qed

text \<open>
  The claim as it was stated asks for exactly one match: the eggs of the example match
  no row of the parsed catalog, and the merge still has as many rows as the route table.
\<close>

theorem merge_left_exactly_one_counterexample:
  "length (merge_left (parse_routes ascii_digits example_routes)
             (parse_catalog ascii_lc example_catalog))
     = length (parse_routes ascii_digits example_routes)
   \<and> parse_routes ascii_digits example_routes ! 1 \<in> set (parse_routes ascii_digits example_routes)
   \<and> length (matches (parse_catalog ascii_lc example_catalog)
               (items_row.Lineitem_name (parse_routes ascii_digits example_routes ! 1))) \<noteq> 1"
  by (simp add: table_defs)

subsection \<open>Forward fill\<close>

lemma length_ffill_from: "length (ffill_from seen xs) = length xs"
  by (induction xs arbitrary: seen) (auto split: option.splits)

lemma length_ffill: "length (ffill xs) = length xs"
  by (simp add: ffill_def length_ffill_from)

lemma ffill_from_Some: "seen \<noteq> None \<Longrightarrow> None \<notin> set (ffill_from seen xs)"
  by (induction xs arbitrary: seen) (auto split: option.splits)

lemma ffill_from_full: "None \<notin> set xs \<Longrightarrow> ffill_from seen xs = xs"
  by (induction xs arbitrary: seen) (auto split: option.splits)

lemma ffill_hd_Some:
  assumes "xs \<noteq> []" and "hd xs \<noteq> None"
  shows "None \<notin> set (ffill xs)"
proof -
  from assms obtain v ys where "xs = Some v # ys" by (cases xs) auto
  then show ?thesis using ffill_from_Some [of "Some v" ys] by (simp add: ffill_def)
qed

lemma ffill_hd_None: "xs \<noteq> [] \<Longrightarrow> hd xs = None \<Longrightarrow> hd (ffill xs) = None"
  by (cases xs) (auto simp: ffill_def)

lemma length_assign: "length col = length df \<Longrightarrow> length (assign upd df col) = length df"
  by (simp add: assign_def)

lemma map_assign_same:
  assumes "length col = length df" and "\<And>r v. f (upd r v) = v"
  shows "map f (assign upd df col) = col"
proof -
  have "map f (assign upd df col) = map snd (zip df col)"
    by (simp add: assign_def assms(2) comp_def case_prod_beta)
  with assms(1) show ?thesis by simp
qed

lemma map_assign_other:
  assumes "length col = length df" and "\<And>r v. f (upd r v) = f r"
  shows "map f (assign upd df col) = map f df"
proof -
  have "map f (assign upd df col) = map f (map fst (zip df col))"
    by (simp add: assign_def assms(2) comp_def case_prod_beta)
  with assms(1) show ?thesis by simp
qed

lemmas assign_simps = length_assign map_assign_same map_assign_other length_ffill

lemma length_ffill_cols: "length (ffill_cols df) = length df"
  by (simp add: ffill_cols_def Let_def assign_simps)

lemma ffill_cols_Route: "map Route (ffill_cols df) = ffill (map Route df)"
  by (simp add: ffill_cols_def Let_def assign_simps)

lemma ffill_cols_Driver: "map stop_cols.Driver (ffill_cols df) = ffill (map stop_cols.Driver df)"
  by (simp add: ffill_cols_def Let_def assign_simps)

lemma ffill_cols_Stop: "map Stop (ffill_cols df) = ffill (map Stop df)"
  by (simp add: ffill_cols_def Let_def assign_simps)

lemma ffill_cols_Address: "map Address (ffill_cols df) = ffill (map Address df)"
  by (simp add: ffill_cols_def Let_def assign_simps)

lemma ffill_cols_Shipping_name: "map Shipping_name (ffill_cols df) = ffill (map Shipping_name df)"
  by (simp add: ffill_cols_def Let_def assign_simps)

lemma ffill_cols_Items: "map Items (ffill_cols df) = map Items df"
  by (simp add: ffill_cols_def Let_def assign_simps)


lemma length_address_processing: "length (address_processing df) = length df"
  by (simp add: address_processing_def assign_simps)

lemma address_processing_Address:
  "map Address (address_processing df) = ffill (map (split_comma_first \<circ> Address) df)"
  by (simp add: address_processing_def assign_simps)

lemma address_processing_Route: "map Route (address_processing df) = map Route df"
  by (simp add: address_processing_def assign_simps)

lemma address_processing_Driver:
  "map stop_cols.Driver (address_processing df) = map stop_cols.Driver df"
  by (simp add: address_processing_def assign_simps)

lemma address_processing_Stop: "map Stop (address_processing df) = map Stop df"
  by (simp add: address_processing_def assign_simps)

lemma address_processing_Shipping_name:
  "map Shipping_name (address_processing df) = map Shipping_name df"
  by (simp add: address_processing_def assign_simps)

lemma address_processing_Items: "map Items (address_processing df) = map Items df"
  by (simp add: address_processing_def assign_simps)

lemma filled_Address:
  "map Address (address_processing (ffill_cols df))
     = ffill (map split_comma_first (ffill (map Address df)))"
  by (simp add: address_processing_Address ffill_cols_Address flip: map_map)

lemma column_no_blank:
  assumes "map f df' = ffill (map f df)" and "df \<noteq> []" and "f (hd df) \<noteq> None"
  shows "\<forall>r \<in> set df'. f r \<noteq> None"
proof -
  have "None \<notin> set (ffill (map f df))"
    using assms(2,3) by (intro ffill_hd_Some) (simp_all add: hd_map)
  with assms(1) have "None \<notin> set (map f df')" by simp
  then show ?thesis by force
qed

lemma column_blank_head:
  assumes "map f df' = ffill (map f df)" and "df \<noteq> []" and "f (hd df) = None"
  shows "f (hd df') = None"
proof -
  from assms(1) have "length df' = length df"
    by (metis length_map length_ffill)
  with assms(2) have ne: "df' \<noteq> []" by auto
  have "hd (ffill (map f df)) = None"
    using assms(2,3) by (intro ffill_hd_None) (simp_all add: hd_map)
  with assms(1) ne show ?thesis by (metis hd_map)
qed

lemma split_comma_first_None: "split_comma_first x = None \<longleftrightarrow> x = None"
  by (simp add: split_comma_first_def)

lemma None_split_comma_first: "None = split_comma_first x \<longleftrightarrow> x = None"
  by (auto simp: split_comma_first_def)

lemma Address_no_blank:
  assumes "df \<noteq> []" and "Address (hd df) \<noteq> None"
  shows "\<forall>r \<in> set (address_processing (ffill_cols df)). Address r \<noteq> None"
proof -
  have "None \<notin> set (ffill (map Address df))"
    using assms by (intro ffill_hd_Some) (simp_all add: hd_map)
  then have "None \<notin> set (map split_comma_first (ffill (map Address df)))"
    by (auto simp: None_split_comma_first)
  then have "None \<notin> set (ffill (map split_comma_first (ffill (map Address df))))"
    by (simp add: ffill_def ffill_from_full)
  then have "None \<notin> set (map Address (address_processing (ffill_cols df)))"
    by (simp add: filled_Address)
  then show ?thesis by force
qed

lemma Address_blank_head:
  assumes "df \<noteq> []" and "Address (hd df) = None"
  shows "Address (hd (address_processing (ffill_cols df))) = None"
proof -
  let ?col = "map split_comma_first (ffill (map Address df))"
  have "hd (ffill (map Address df)) = None"
    using assms by (intro ffill_hd_None) (simp_all add: hd_map)
  moreover have ne: "ffill (map Address df) \<noteq> []"
    using assms(1) by (metis length_ffill length_map length_0_conv)
  ultimately have "hd ?col = None" by (simp add: hd_map split_comma_first_None)
  moreover from ne have "?col \<noteq> []" by simp
  ultimately have "hd (ffill ?col) = None" by (rule ffill_hd_None [rotated])
  moreover have "address_processing (ffill_cols df) \<noteq> []"
    using assms(1) by (metis length_address_processing length_ffill_cols length_0_conv)
  ultimately show ?thesis by (metis filled_Address hd_map)
qed

text \<open>
  Claim C5, as amended. After the forward fill and the address processing, a field among
  \<^verbatim>\<open>Route\<close>, \<^verbatim>\<open>Driver\<close>, \<^verbatim>\<open>Stop\<close>, \<^verbatim>\<open>Address\<close> and \<^verbatim>\<open>Shipping name\<close> that is not
  blank in the first row is blank in no row; a field that is blank in the first row is
  still blank there.
\<close>

theorem forward_fill_no_blank:
  assumes "route_data \<noteq> []"
  shows "(Route (hd route_data) \<noteq> None \<longrightarrow>
           (\<forall>r \<in> set (address_processing (ffill_cols route_data)). Route r \<noteq> None))
       \<and> (stop_cols.Driver (hd route_data) \<noteq> None \<longrightarrow>
           (\<forall>r \<in> set (address_processing (ffill_cols route_data)). stop_cols.Driver r \<noteq> None))
       \<and> (Stop (hd route_data) \<noteq> None \<longrightarrow>
           (\<forall>r \<in> set (address_processing (ffill_cols route_data)). Stop r \<noteq> None))
       \<and> (Address (hd route_data) \<noteq> None \<longrightarrow>
           (\<forall>r \<in> set (address_processing (ffill_cols route_data)). Address r \<noteq> None))
       \<and> (Shipping_name (hd route_data) \<noteq> None \<longrightarrow>
           (\<forall>r \<in> set (address_processing (ffill_cols route_data)). Shipping_name r \<noteq> None))
       \<and> (Route (hd route_data) = None \<longrightarrow>
           Route (hd (address_processing (ffill_cols route_data))) = None)
       \<and> (stop_cols.Driver (hd route_data) = None \<longrightarrow>
           stop_cols.Driver (hd (address_processing (ffill_cols route_data))) = None)
       \<and> (Stop (hd route_data) = None \<longrightarrow>
           Stop (hd (address_processing (ffill_cols route_data))) = None)
       \<and> (Address (hd route_data) = None \<longrightarrow>
           Address (hd (address_processing (ffill_cols route_data))) = None)
       \<and> (Shipping_name (hd route_data) = None \<longrightarrow>
           Shipping_name (hd (address_processing (ffill_cols route_data))) = None)"
proof -
  let ?df = "address_processing (ffill_cols route_data)"
  have R: "map Route ?df = ffill (map Route route_data)"
    by (simp add: address_processing_Route ffill_cols_Route)
  have D: "map stop_cols.Driver ?df = ffill (map stop_cols.Driver route_data)"
    by (simp add: address_processing_Driver ffill_cols_Driver)
  have S: "map Stop ?df = ffill (map Stop route_data)"
    by (simp add: address_processing_Stop ffill_cols_Stop)
  have N: "map Shipping_name ?df = ffill (map Shipping_name route_data)"
    by (simp add: address_processing_Shipping_name ffill_cols_Shipping_name)
  show ?thesis
    using column_no_blank [OF R assms] column_no_blank [OF D assms] column_no_blank [OF S assms]
      column_no_blank [OF N assms] Address_no_blank [OF assms]
      column_blank_head [OF R assms] column_blank_head [OF D assms] column_blank_head [OF S assms]
      column_blank_head [OF N assms] Address_blank_head [OF assms]
    by blast
qed


theorem forward_fill_no_blank_witness:
  "example_routes \<noteq> []
   \<and> stop_cols.Driver (hd example_routes) \<noteq> None
   \<and> map stop_cols.Driver (address_processing (ffill_cols example_routes))
       = [Some (py ''Bob''), Some (py ''Bob''), Some (py ''Ann'')]
   \<and> map Address (address_processing (ffill_cols example_routes))
       = [Some (py ''5 Elm St''), Some (py ''5 Elm St''), Some (py ''9 Oak Rd'')]"
proof -
  have ne: "example_routes \<noteq> []"
    by (simp add: example_routes_def)
  have "stop_cols.Driver (hd example_routes) \<noteq> None"
    by (simp add: example_routes_def delivery_def)
  moreover have "map stop_cols.Driver (address_processing (ffill_cols example_routes))
       = [Some (py ''Bob''), Some (py ''Bob''), Some (py ''Ann'')]"
    by (simp add: table_defs)
  moreover have "map Address (address_processing (ffill_cols example_routes))
       = [Some (py ''5 Elm St''), Some (py ''5 Elm St''), Some (py ''9 Oak Rd'')]"
    by (simp add: table_defs)
  ultimately show ?thesis
    using ne forward_fill_no_blank [OF ne] by simp
qed

text \<open>
  The claim as it was stated also says that no blank is left unless the table is empty:
  a table that starts with the second stop of the example is not empty and keeps the
  blank driver.
\<close>

theorem forward_fill_leading_blank_counterexample:
  "tl example_routes \<noteq> []
   \<and> stop_cols.Driver (hd (address_processing (ffill_cols (tl example_routes)))) = None"
  by (simp add: table_defs)

subsection \<open>Missing counts\<close>

lemma process_data_eq:
  "process_data dv lc route_data products_data
     = (map final_cols (merge_left (parse_routes dv route_data) (parse_catalog lc products_data)),
        parse_catalog lc products_data)"
  by (simp add: process_data_def parse_routes_def Let_def)

lemma filled_Items: "map Items (address_processing (ffill_cols df)) = map Items df"
  by (simp add: address_processing_Items ffill_cols_Items)

lemma extract_items_fields:
  "items_row.Item_Count (extract_items dv r) = extract_digits dv (str_upto_3 (Items r))"
  "items_row.Lineitem_name (extract_items dv r) = str_from_3 (Items r)"
  "stop_cols.Driver (extract_items dv r) = stop_cols.Driver r"
  by (simp_all add: extract_items_def route_row.extend_def items_row.fields_def)

lemma join_row_nonempty: "join_row df_plist l \<noteq> []"
  by (simp add: join_row_def Let_def)

lemma join_row_truncate:
  "m \<in> set (join_row df_plist l) \<Longrightarrow> items_row.truncate m = items_row.truncate l"
  by (auto simp: join_row_def Let_def items_row.truncate_def items_row.extend_def
      split: if_splits)

lemma final_cols_fields:
  "final_row.Item_Count (final_cols m) = items_row.Item_Count m"
  "final_row.Lineitem_name (final_cols m) = items_row.Lineitem_name m"
  "final_row.Count (final_cols m) = count_field (items_row.Item_Count m)"
  "stop_cols.Driver (final_cols m) = stop_cols.Driver m"
  by (simp_all add: final_cols_def stop_cols.extend_def stop_cols.truncate_def
      final_row.fields_def)

lemma truncate_fields:
  "items_row.Item_Count (items_row.truncate m) = items_row.Item_Count m"
  "items_row.Lineitem_name (items_row.truncate m) = items_row.Lineitem_name m"
  "stop_cols.Driver (items_row.truncate m) = stop_cols.Driver m"
  by (simp_all add: items_row.truncate_def)

lemma extract_digits_no_digit:
  "\<forall>c \<in> set s. dv c = None \<Longrightarrow> extract_digits dv (Some s) = None"
proof -
  assume "\<forall>c \<in> set s. dv c = None"
  then have none: "dropWhile (\<lambda>c. \<not> is_digit dv c) s = []"
    by (simp add: is_digit_def dropWhile_eq_Nil_conv)
  show ?thesis by (simp add: extract_digits_def Let_def none)
qed

lemma astype_int_col_None: "None \<in> set col \<Longrightarrow> astype_int_col dv col = Inl ValueError"
proof (induction col)
  case Nil
  then show ?case by simp
next
  case (Cons x col)
  show ?case
  proof (cases "astype_int dv x")
    case (Inl e)
    then show ?thesis by (cases e) simp
  next
    case (Inr n)
    then have "x \<noteq> None" by (auto simp: astype_int_def split: option.splits)
    with Cons.prems have "None \<in> set col" by auto
    with Cons.IH Inr show ?thesis by simp
  qed
qed

lemma merged_copy:
  assumes "l \<in> set route_df"
  shows "\<exists>m \<in> set (merge_left route_df df_plist). items_row.truncate m = items_row.truncate l"
proof -
  from join_row_nonempty obtain m where m: "m \<in> set (join_row df_plist l)"
    by (metis last_in_set)
  with assms have "m \<in> set (merge_left route_df df_plist)"
    by (auto simp: merge_left_def)
  with join_row_truncate [OF m] show ?thesis by blast
qed

text \<open>
  Claim C3, as amended. When the first three characters of an item field hold no digit,
  the extracted item count is NaN. \<open>process_data\<close> carries the NaN along: the merged
  table has a row of that item with NaN in \<^verbatim>\<open>Item Count\<close> and in \<^verbatim>\<open>Count\<close>. The
  conversion to integers that opens the packing aggregation then raises
  \<^verbatim>\<open>ValueError\<close>, and the run ends without a packing table and without workbooks.
\<close>

theorem non_numeric_prefix:
  assumes "r \<in> set route_data" and "Items r = Some s" and "\<forall>c \<in> set (take 3 s). dv c = None"
  shows "extract_digits dv (str_upto_3 (Items r)) = None
    \<and> (\<exists>m \<in> set (fst (process_data dv lc route_data products_data)).
          final_row.Lineitem_name m = Some (drop 3 s) \<and> final_row.Item_Count m = None
          \<and> final_row.Count m = None)
    \<and> generate dv lc route_data products_data = Inl ValueError"
proof -
  have count: "extract_digits dv (str_upto_3 (Items r)) = None"
    using assms(2,3) by (simp add: str_upto_3_def extract_digits_no_digit)
  from assms(1) have "Items r \<in> set (map Items (address_processing (ffill_cols route_data)))"
    by (simp add: filled_Items)
  then obtain r' where r': "r' \<in> set (address_processing (ffill_cols route_data))"
    and items: "Items r' = Items r" by auto
  let ?l = "extract_items dv r'"
  have "?l \<in> set (parse_routes dv route_data)"
    using r' by (simp add: parse_routes_def)
  from merged_copy [OF this] obtain m
    where m: "m \<in> set (merge_left (parse_routes dv route_data) (parse_catalog lc products_data))"
      and t: "items_row.truncate m = items_row.truncate ?l" by blast
  from t have "items_row.Item_Count (items_row.truncate m) = items_row.Item_Count (items_row.truncate ?l)"
    and "items_row.Lineitem_name (items_row.truncate m) = items_row.Lineitem_name (items_row.truncate ?l)"
    by simp_all
  then have mc: "items_row.Item_Count m = None" and mn: "items_row.Lineitem_name m = Some (drop 3 s)"
    using count items assms(2) by (simp_all add: truncate_fields extract_items_fields str_from_3_def)
  let ?f = "final_cols m"
  have f: "?f \<in> set (fst (process_data dv lc route_data products_data))"
    using m by (simp add: process_data_eq)
  have fields: "final_row.Lineitem_name ?f = Some (drop 3 s)" "final_row.Item_Count ?f = None"
    "final_row.Count ?f = None"
    using mc mn by (simp_all add: final_cols_fields count_field_def)
  from f fields(2)
  have "None \<in> set (map final_row.Item_Count (fst (process_data dv lc route_data products_data)))"
    by force
  then have "astype_int_col dv (map final_row.Item_Count (fst (process_data dv lc route_data products_data)))
      = Inl ValueError"
    by (rule astype_int_col_None)
  then have "generate dv lc route_data products_data = Inl ValueError"
    by (simp add: generate_def build_packing_def process_data_eq)
  with count f fields show ?thesis by blast
qed


lemmas packing_defs =
  generate_def build_packing_def astype_int_def py_int_def digits_value_def groupby_sum_def
  groupby_def group_keys_def driver_item_key_def packing_join_def count_new_def
  packing_sort_key_def na_last_def

theorem non_numeric_prefix_witness:
  "extract_digits ascii_digits (str_upto_3 (Some (py ''Eggs''))) = None
   \<and> generate ascii_digits ascii_lc
         [hd example_routes, delivery None None (Some (py ''Eggs''))] example_catalog
       = Inl ValueError"
proof -
  let ?r = "delivery None None (Some (py ''Eggs''))"
  have "?r \<in> set [hd example_routes, ?r]" by simp
  moreover have "Items ?r = Some (py ''Eggs'')" by (simp add: delivery_def)
  moreover have "\<forall>c \<in> set (take 3 (py ''Eggs'')). ascii_digits c = None"
    by (simp add: py_def ascii_digits_def)
  ultimately show ?thesis
    using non_numeric_prefix [of ?r "[hd example_routes, ?r]" "py ''Eggs''" ascii_digits
        ascii_lc example_catalog]
    by (simp add: delivery_def)
qed

text \<open>
  The claim as it was stated has the NaN left out of the sum or counted as zero. On a
  route table whose only item is \<^verbatim>\<open>Two Apples\<close> the packing aggregation raises.
\<close>

theorem non_numeric_prefix_counterexample:
  "map final_row.Item_Count
     (fst (process_data ascii_digits ascii_lc
        [delivery (Some (py ''Bob'')) (Some (py ''5 Elm St'')) (Some (py ''Two Apples''))]
        example_catalog)) = [None]
   \<and> build_packing ascii_digits
       (fst (process_data ascii_digits ascii_lc
          [delivery (Some (py ''Bob'')) (Some (py ''5 Elm St'')) (Some (py ''Two Apples''))]
          example_catalog))
       (snd (process_data ascii_digits ascii_lc
          [delivery (Some (py ''Bob'')) (Some (py ''5 Elm St'')) (Some (py ''Two Apples''))]
          example_catalog)) = Inl ValueError
   \<and> generate ascii_digits ascii_lc
        [delivery (Some (py ''Bob'')) (Some (py ''5 Elm St'')) (Some (py ''Two Apples''))]
        example_catalog = Inl ValueError"
  by (simp add: table_defs packing_defs)

subsection \<open>Item count and item name\<close>

text \<open>
  The claim C1 as it was stated gives the item \<^verbatim>\<open>2Organic Apples\<close> the name
  \<^verbatim>\<open>Organic Apples\<close>. The name starts at the fourth character.
\<close>

theorem item_name_counterexample:
  "map final_row.Lineitem_name
     (fst (process_data ascii_digits ascii_lc
        [delivery (Some (py ''Bob'')) (Some (py ''5 Elm St'')) (Some (py ''2Organic Apples''))]
        [entry ''Organic Apples'' (Some kw_vege) ''A-1'']))
   \<noteq> [Some (py ''Organic Apples'')]"
  by (simp add: table_defs)

text \<open>
  Claim C1, as amended. The item count is the first run of digits among the first three
  characters of the item field and the item name is what follows the first three
  characters. For \<^verbatim>\<open>2Organic Apples\<close> the count is \<^verbatim>\<open>2\<close>, the name is
  \<^verbatim>\<open>ganic Apples\<close> and \<^verbatim>\<open>Count\<close> is \<^verbatim>\<open>2\<close>; the catalog row of the organic apples has
  the product type \<^verbatim>\<open>vege & fruit\<close>. For \<^verbatim>\<open>1Free Gift\<close> the count is \<^verbatim>\<open>1\<close>, the name
  is \<^verbatim>\<open>ee Gift\<close> and \<^verbatim>\<open>Count\<close> is the empty string.
\<close>

theorem item_count_and_name:
  "items_row.Item_Count (extract_items dv r) = extract_digits dv (map_option (take 3) (Items r))
   \<and> items_row.Lineitem_name (extract_items dv r) = map_option (drop 3) (Items r)
   \<and> map (\<lambda>m. (final_row.Item_Count m, final_row.Lineitem_name m, final_row.Count m))
       (fst (process_data ascii_digits ascii_lc
          [delivery (Some (py ''Bob'')) (Some (py ''5 Elm St'')) (Some (py ''2Organic Apples''))]
          [entry ''Organic Apples'' (Some kw_vege) ''A-1'']))
     = [(Some (py ''2''), Some (py ''ganic Apples''), Some (py ''2''))]
   \<and> map Product_type (snd (process_data ascii_digits ascii_lc
          [delivery (Some (py ''Bob'')) (Some (py ''5 Elm St'')) (Some (py ''2Organic Apples''))]
          [entry ''Organic Apples'' (Some kw_vege) ''A-1'']))
     = [py ''vege & fruit'']
   \<and> map (\<lambda>m. (final_row.Item_Count m, final_row.Lineitem_name m, final_row.Count m))
       (fst (process_data ascii_digits ascii_lc
          [delivery (Some (py ''Bob'')) (Some (py ''5 Elm St'')) (Some (py ''1Free Gift''))]
          [entry ''Organic Apples'' (Some kw_vege) ''A-1'']))
     = [(Some (py ''1''), Some (py ''ee Gift''), Some [])]"
proof (intro conjI)
  show "items_row.Item_Count (extract_items dv r) = extract_digits dv (map_option (take 3) (Items r))"
    by (simp add: extract_items_fields str_upto_3_def)
  show "items_row.Lineitem_name (extract_items dv r) = map_option (drop 3) (Items r)"
    by (simp add: extract_items_fields str_from_3_def)
qed (simp_all add: table_defs)

subsection \<open>Groups and sheets\<close>

lemma set_group_keys: "set (group_keys col) = {k. Some k \<in> set col}"
  by (force simp: group_keys_def)

lemma distinct_group_keys: "distinct (group_keys col)"
  by (simp add: group_keys_def)

lemma sorted_group_keys: "sorted (group_keys col)"
  by (simp add: group_keys_def)

lemma group_keys_sorted_list_of_set:
  "group_keys col = sorted_list_of_set {k. Some k \<in> set col}"
proof -
  have "set (map the (filter (\<lambda>x. x \<noteq> None) col)) = {k. Some k \<in> set col}"
    by force
  then show ?thesis
    by (metis group_keys_def sorted_list_of_set_sort_remdups)
qed

lemma map_fst_groupby: "map fst (groupby key df) = group_keys (map key df)"
  by (simp add: groupby_def comp_def)

lemma routing_titles:
  "map title (create_routing_file route_df) = group_keys (map stop_cols.Driver route_df)"
  by (simp add: create_routing_file_def format_titles routing_sheet_def to_excel_def groupby_def
      comp_def case_prod_beta)

lemma packing_titles:
  "map title (create_packing_file packing_df) = group_keys (map packing_row.Driver packing_df)"
  by (simp add: create_packing_file_def format_titles packing_sheet_def to_excel_def groupby_def
      comp_def case_prod_beta)

lemma count_in_distinct:
  "distinct xs \<Longrightarrow> x \<in> set xs \<Longrightarrow> length (filter (\<lambda>y. y = x) xs) = 1"
  by (induction xs) (auto simp: filter_empty_conv)

lemma one_sheet:
  assumes "map title wb = group_keys col" and "Some d \<in> set col"
  shows "length (filter (\<lambda>ws. title ws = d) wb) = 1"
proof -
  have "length (filter (\<lambda>ws. title ws = d) wb) = length (filter (\<lambda>t. t = d) (map title wb))"
    by (simp add: filter_map comp_def)
  also have "\<dots> = 1"
    using assms by (intro count_in_distinct) (simp_all add: distinct_group_keys set_group_keys)
  finally show ?thesis .
qed

lemma column_sum_number:
  assumes "\<And>r. cell_value (cells r ! j) = number_value (f r)"
  shows "column_sum j (map cells grp) = sum_skipna (map f grp)"
  using assms
  by (induction grp) (auto simp: column_sum_def sum_skipna_def number_value_def split: option.splits)

text \<open>
  A sheet of the report builders has a header without blanks and a last row with a
  number, so that its cells span the whole grid that was written.
\<close>

lemma sheet_rows:
  fixes final :: "'n xl_value list list"
  assumes "columns \<noteq> []" and "\<forall>row \<in> set final. length row = length columns"
    and "final \<noteq> []" and "0 < stored_length (\<lambda>v. v \<noteq> Blank) (last final)"
  shows "rows (save_sheet (format_sheet (load_sheet (to_excel driver columns final))))
     = map (map format_cell) (map (Text \<circ> py) columns # final)"
proof -
  let ?st = "\<lambda>v :: 'n xl_value. v \<noteq> Blank"
  let ?header = "map (Text \<circ> py) columns :: 'n xl_value list"
  let ?grid = "?header # final"
  have "stored_length ?st ?header = length columns"
    using assms(1) stored_length_full [of ?header ?st]
    by (simp add: last_map)
  then have "\<exists>row \<in> set ?grid. stored_length ?st row = length columns"
    by simp
  moreover have "\<forall>row \<in> set ?grid. length row = length columns"
    using assms(2) by simp
  moreover have "0 < stored_length ?st (last ?grid)"
    using assms(3,4) by simp
  ultimately have "bounding_box ?st Blank ?grid = ?grid"
    by (intro bounding_box_full) simp_all
  then show ?thesis
    by (simp add: rows_formatted iter_rows_def load_sheet_def to_excel_def)
qed

lemma stored_length_total:
  "0 < stored_length (\<lambda>v. v \<noteq> Blank) (routing_total grp)"
  "0 < stored_length (\<lambda>v. v \<noteq> Blank) (packing_total grp')"
  by (simp_all add: stored_length_def routing_total_def packing_total_def)

lemma length_routing_rows:
  "length (routing_values r) = length routing_columns"
  "length (routing_total grp) = length routing_columns"
  by (simp_all add: routing_values_def routing_total_def routing_columns_def)

lemma length_packing_rows:
  "length (packing_values r) = length packing_columns"
  "length (packing_total grp) = length packing_columns"
  by (simp_all add: packing_values_def packing_total_def packing_columns_def)

lemma routing_sheet_rows:
  "rows (save_sheet (format_sheet (load_sheet (routing_sheet driver grp))))
     = map format_cell (map (Text \<circ> py) routing_columns)
         # map (\<lambda>r. map format_cell (routing_values r)) grp
         @ [map format_cell (routing_total grp)]"
proof -
  have "rows (save_sheet (format_sheet (load_sheet (routing_sheet driver grp))))
      = map (map format_cell)
          (map (Text \<circ> py) routing_columns # map routing_values grp @ [routing_total grp])"
    unfolding routing_sheet_def
  proof (rule sheet_rows)
    show "routing_columns \<noteq> []" by (simp add: routing_columns_def)
    show "\<forall>row \<in> set (map routing_values grp @ [routing_total grp]).
        length row = length routing_columns"
      by (auto simp: length_routing_rows)
    show "0 < stored_length (\<lambda>v. v \<noteq> Blank) (last (map routing_values grp @ [routing_total grp]))"
      by (simp add: stored_length_total)
  qed simp
  then show ?thesis by (simp add: comp_def)
qed

lemma packing_sheet_rows:
  "rows (save_sheet (format_sheet (load_sheet (packing_sheet driver grp))))
     = map format_cell (map (Text \<circ> py) packing_columns)
         # map (\<lambda>r. map format_cell (packing_values r)) grp
         @ [map format_cell (packing_total grp)]"
proof -
  have "rows (save_sheet (format_sheet (load_sheet (packing_sheet driver grp))))
      = map (map format_cell)
          (map (Text \<circ> py) packing_columns # map packing_values grp @ [packing_total grp])"
    unfolding packing_sheet_def
  proof (rule sheet_rows)
    show "packing_columns \<noteq> []" by (simp add: packing_columns_def)
    show "\<forall>row \<in> set (map packing_values grp @ [packing_total grp]).
        length row = length packing_columns"
      by (auto simp: length_packing_rows)
    show "0 < stored_length (\<lambda>v. v \<noteq> Blank) (last (map packing_values grp @ [packing_total grp]))"
      by (simp add: stored_length_total)
  qed simp
  then show ?thesis by (simp add: comp_def)
qed

lemma routing_sheet_total:
  fixes grp :: "('n::monoid_add) final_row list"
  assumes ws_def: "ws = save_sheet (format_sheet (load_sheet (routing_sheet driver grp)))"
  shows "map cell_value (last (rows ws))
     = [Blank, Blank, Blank, Number (column_sum 3 (butlast (tl (rows ws)))), Blank,
        Number (column_sum 5 (butlast (tl (rows ws)))),
        Number (column_sum 6 (butlast (tl (rows ws)))), Blank]"
proof -
  let ?cells = "\<lambda>r. map format_cell (routing_values r)"
  have rows: "rows ws = map format_cell (map (Text \<circ> py) routing_columns)
      # map ?cells grp @ [map format_cell (routing_total grp)]"
    by (simp add: ws_def routing_sheet_rows)
  then have data: "butlast (tl (rows ws)) = map ?cells grp"
    by (simp add: butlast_append)
  have last: "map cell_value (last (rows ws)) = routing_total grp"
    by (simp add: rows comp_def cell_value_format_cell)
  have "column_sum 3 (map ?cells grp) = sum_skipna (map Total_items grp)"
    by (rule column_sum_number) (simp add: routing_values_def cell_value_format_cell)
  moreover have "column_sum 5 (map ?cells grp) = sum_skipna (map time grp)"
    by (rule column_sum_number) (simp add: routing_values_def cell_value_format_cell)
  moreover have "column_sum 6 (map ?cells grp) = sum_skipna (map dist grp)"
    by (rule column_sum_number) (simp add: routing_values_def cell_value_format_cell)
  ultimately show ?thesis
    by (simp add: last data routing_total_def)
qed

lemma column_sum_count:
  assumes "\<And>r. cell_value (cells r ! j) = Number (f r)"
  shows "column_sum j (map cells grp) = sum_list (map f grp)"
  using assms by (induction grp) (auto simp: column_sum_def)

lemma packing_sheet_total:
  assumes ws_def: "ws = save_sheet (format_sheet (load_sheet (packing_sheet driver grp)))"
  shows "map cell_value (last (rows ws))
     = [Blank, Blank, Blank, Number (column_sum 3 (butlast (tl (rows ws)))), Blank, Blank]"
proof -
  let ?cells = "\<lambda>r. map format_cell (packing_values r)"
  have rows: "rows ws = map format_cell (map (Text \<circ> py) packing_columns)
      # map ?cells grp @ [map format_cell (packing_total grp)]"
    by (simp add: ws_def packing_sheet_rows)
  then have data: "butlast (tl (rows ws)) = map ?cells grp"
    by (simp add: butlast_append)
  have last: "map cell_value (last (rows ws)) = packing_total grp"
    by (simp add: rows comp_def cell_value_format_cell)
  have "column_sum 3 (map ?cells grp) = sum_list (map packing_row.Count grp)"
    by (rule column_sum_count) (simp add: packing_values_def cell_value_format_cell)
  then show ?thesis
    by (simp add: last data packing_total_def)
qed

lemma sheet_names:
  "sheet_name (routing_sheet driver grp) = driver"
  "sheet_name (packing_sheet driver grp') = driver"
  by (simp_all add: routing_sheet_def packing_sheet_def to_excel_def)

lemma routing_sheets:
  "ws \<in> set (create_routing_file route_df) \<Longrightarrow>
     \<exists>driver grp. ws = save_sheet (format_sheet (load_sheet (routing_sheet driver grp)))"
  by (auto simp: create_routing_file_def format_excel_file_eq)

lemma packing_sheets:
  "ws \<in> set (create_packing_file packing_df) \<Longrightarrow>
     \<exists>driver grp. ws = save_sheet (format_sheet (load_sheet (packing_sheet driver grp)))"
  by (auto simp: create_packing_file_def format_excel_file_eq)

subsection \<open>Packing table\<close>

lemma astype_int_col_Inr:
  "astype_int_col dv col = Inr ns \<Longrightarrow> ns = map (count_value dv) col \<and> None \<notin> set col"
proof (induction col arbitrary: ns)
  case Nil
  then show ?case by simp
next
  case (Cons x col)
  from Cons.prems obtain n ms where x: "astype_int dv x = Inr n"
    and ms: "astype_int_col dv col = Inr ms" and ns: "ns = n # ms"
    by (auto split: sum.splits)
  from x have "x \<noteq> None" "count_value dv x = n"
    by (auto simp: astype_int_def count_value_def split: option.splits)
  with Cons.IH [OF ms] ns show ?case by auto
qed

lemma merged_source:
  assumes "m \<in> set (merge_left route_df df_plist)"
  shows "\<exists>l \<in> set route_df. items_row.truncate m = items_row.truncate l"
proof -
  from assms obtain l where "l \<in> set route_df" and "m \<in> set (join_row df_plist l)"
    by (auto simp: merge_left_def)
  with join_row_truncate show ?thesis by blast
qed

lemma extract_digits_NaN: "extract_digits dv None = None"
  by (simp add: extract_digits_def)

lemma parsed_name:
  assumes "l \<in> set (parse_routes dv route_data)" and "items_row.Item_Count l \<noteq> None"
  shows "items_row.Lineitem_name l \<noteq> None"
proof -
  from assms(1) obtain r where l: "l = extract_items dv r"
    by (auto simp: parse_routes_def)
  with assms(2) have "Items r \<noteq> None"
    by (cases "Items r") (simp_all add: extract_items_fields str_upto_3_def extract_digits_NaN)
  with l show ?thesis
    by (auto simp: extract_items_fields str_from_3_def)
qed

lemma final_name:
  assumes "m \<in> set (fst (process_data dv lc route_data products_data))"
    and "final_row.Item_Count m \<noteq> None"
  shows "final_row.Lineitem_name m \<noteq> None"
proof -
  from assms(1) obtain m' where m': "m' \<in> set (merge_left (parse_routes dv route_data)
      (parse_catalog lc products_data))" and m: "m = final_cols m'"
    by (auto simp: process_data_eq)
  from merged_source [OF m'] obtain l where l: "l \<in> set (parse_routes dv route_data)"
    and t: "items_row.truncate m' = items_row.truncate l" by blast
  from t have "items_row.Item_Count (items_row.truncate m') = items_row.Item_Count (items_row.truncate l)"
    and "items_row.Lineitem_name (items_row.truncate m') = items_row.Lineitem_name (items_row.truncate l)"
    by simp_all
  then have "items_row.Item_Count m' = items_row.Item_Count l"
    and "items_row.Lineitem_name m' = items_row.Lineitem_name l"
    by (simp_all add: truncate_fields)
  with parsed_name [OF l] assms(2) m show ?thesis
    by (simp add: final_cols_fields)
qed

lemma zip_columns:
  "zip (map f df) (zip (map g df) (map h df)) = map (\<lambda>m. (f m, g m, h m)) df"
  by (induction df) auto

lemma sum_list_if_distinct:
  fixes g :: "'b::comm_monoid_add"
  assumes "distinct ks"
  shows "(\<Sum>k\<leftarrow>ks. if x = Some k then g else 0) = (if x \<in> Some ` set ks then g else 0)"
  using assms by (induction ks) auto

lemma sum_by_groups:
  fixes g :: "'r \<Rightarrow> 'b::comm_monoid_add"
  assumes "distinct ks"
  shows "(\<Sum>k\<leftarrow>ks. \<Sum>r\<leftarrow>filter (\<lambda>r. key r = Some k) df. g r)
       = (\<Sum>r\<leftarrow>filter (\<lambda>r. key r \<in> Some ` set ks) df. g r)"
proof (induction df)
  case Nil
  then show ?case by simp
next
  case (Cons r df)
  have "(\<Sum>k\<leftarrow>ks. \<Sum>r\<leftarrow>filter (\<lambda>r. key r = Some k) (r # df). g r)
      = (\<Sum>k\<leftarrow>ks. (if key r = Some k then g r else 0)
            + (\<Sum>r\<leftarrow>filter (\<lambda>r. key r = Some k) df. g r))"
    by (intro arg_cong [where f = sum_list] map_cong) auto
  also have "\<dots> = (\<Sum>k\<leftarrow>ks. if key r = Some k then g r else 0)
      + (\<Sum>k\<leftarrow>ks. \<Sum>r\<leftarrow>filter (\<lambda>r. key r = Some k) df. g r)"
    by (simp add: sum_list_addf)
  also have "\<dots> = (if key r \<in> Some ` set ks then g r else 0)
      + (\<Sum>r\<leftarrow>filter (\<lambda>r. key r \<in> Some ` set ks) df. g r)"
    by (simp only: sum_list_if_distinct [OF assms] Cons.IH)
  also have "\<dots> = (\<Sum>r\<leftarrow>filter (\<lambda>r. key r \<in> Some ` set ks) (r # df). g r)"
    by simp
  finally show ?case .
qed


lemma sum_list_mset_cong:
  fixes g :: "'a \<Rightarrow> 'b::comm_monoid_add"
  assumes "mset xs = mset ys"
  shows "sum_list (map g xs) = sum_list (map g ys)"
proof -
  have "sum_mset (image_mset g (mset xs)) = sum_mset (image_mset g (mset ys))"
    using assms by simp
  then show ?thesis by (simp only: mset_map [symmetric] sum_mset_sum_list)
qed

lemma sum_filter_sort_key:
  fixes g :: "'a \<Rightarrow> 'b::comm_monoid_add"
  shows "(\<Sum>r\<leftarrow>filter P (sort_key f xs). g r) = (\<Sum>r\<leftarrow>filter P xs. g r)"
  by (rule sum_list_mset_cong) simp

lemma build_packing_Inr:
  assumes "build_packing dv df df_plist = Inr packing_df"
  shows "None \<notin> set (map final_row.Item_Count df)"
    and "packing_df = sort_key packing_sort_key (concat (map (packing_join df_plist)
          (groupby_sum (map (\<lambda>m. (stop_cols.Driver m, final_row.Lineitem_name m,
             count_value dv (final_row.Item_Count m))) df))))"
proof -
  from assms obtain counts where c: "astype_int_col dv (map final_row.Item_Count df) = Inr counts"
    by (auto simp: build_packing_def split: sum.splits)
  from astype_int_col_Inr [OF c]
  have counts: "counts = map (\<lambda>m. count_value dv (final_row.Item_Count m)) df"
    and none: "None \<notin> set (map final_row.Item_Count df)"
    by (simp_all add: comp_def)
  show "None \<notin> set (map final_row.Item_Count df)" by (rule none)
  from assms c show "packing_df = sort_key packing_sort_key (concat (map (packing_join df_plist)
          (groupby_sum (map (\<lambda>m. (stop_cols.Driver m, final_row.Lineitem_name m,
             count_value dv (final_row.Item_Count m))) df))))"
    by (simp add: build_packing_def Let_def counts zip_columns)
qed

lemma packing_join_eq:
  "packing_join df_plist ((d, n), c)
     = map (\<lambda>p. \<lparr>packing_row.Driver = Some d, Lineitem_name = Some n, Count = c,
                  Count_New = count_new c, product = p\<rparr>)
         (if matches df_plist (Some n) = [] then [None] else map Some (matches df_plist (Some n)))"
  by (simp add: packing_join_def Let_def comp_def)

lemma length_packing_join:
  "length (packing_join df_plist ((d, n), c)) = max 1 (length (matches df_plist (Some n)))"
  by (cases "matches df_plist (Some n)") (simp_all add: packing_join_eq)

lemma packing_join_fields:
  assumes "r \<in> set (packing_join df_plist ((d, n), c))"
  shows "packing_row.Driver r = Some d" and "packing_row.Lineitem_name r = Some n"
    and "packing_row.Count r = c"
  using assms by (auto simp: packing_join_eq split: if_splits)

lemma packing_join_driver_sum:
  "(\<Sum>r\<leftarrow>filter (\<lambda>r. packing_row.Driver r = Some d0) (packing_join df_plist ((d, n), c)).
       packing_row.Count r)
     = (if d = d0 then c * int (max 1 (length (matches df_plist (Some n)))) else 0)"
proof (cases "d = d0")
  case True
  with packing_join_fields(1)
  have "filter (\<lambda>r. packing_row.Driver r = Some d0) (packing_join df_plist ((d, n), c))
      = packing_join df_plist ((d, n), c)"
    by (simp add: filter_id_conv)
  moreover have "map packing_row.Count (packing_join df_plist ((d, n), c))
      = replicate (length (packing_join df_plist ((d, n), c))) c"
    using packing_join_fields(3) by (simp add: map_replicate_const [symmetric] cong: map_cong)
  ultimately show ?thesis
    using True by (simp add: sum_list_replicate length_packing_join mult.commute)
next
  case False
  with packing_join_fields(1)
  have "filter (\<lambda>r. packing_row.Driver r = Some d0) (packing_join df_plist ((d, n), c)) = []"
    by (fastforce simp: filter_empty_conv)
  with False show ?thesis by simp
qed

lemma sum_list_concat_map:
  fixes f :: "'a \<Rightarrow> 'b::monoid_add"
  shows "sum_list (map f (concat xss)) = (\<Sum>xs\<leftarrow>xss. sum_list (map f xs))"
  by (induction xss) simp_all

lemma sum_list_if_filter:
  fixes f :: "'a \<Rightarrow> 'b::monoid_add"
  shows "(\<Sum>k\<leftarrow>ks. if P k then f k else 0) = sum_list (map f (filter P ks))"
  by (induction ks) simp_all

lemma groupby_sum_eq:
  "groupby_sum df
     = map (\<lambda>k. (k, \<Sum>r\<leftarrow>filter (\<lambda>r. driver_item_key r = Some k) df. snd (snd r)))
         (group_keys (map driver_item_key df))"
  by (simp add: groupby_sum_def groupby_def comp_def split_def)

lemma driver_item_key_Some:
  "driver_item_key r = Some (d, n) \<longleftrightarrow> fst r = Some d \<and> fst (snd r) = Some n"
  by (cases r) (auto simp: driver_item_key_def split: option.splits)

lemma packing_driver_sum:
  assumes build: "build_packing dv df df_plist = Inr packing_df"
    and names: "\<forall>m \<in> set df. final_row.Item_Count m \<noteq> None \<longrightarrow> final_row.Lineitem_name m \<noteq> None"
    and one: "\<forall>m \<in> set df. length (matches df_plist (final_row.Lineitem_name m)) \<le> 1"
  shows "(\<Sum>r\<leftarrow>filter (\<lambda>r. packing_row.Driver r = Some d) packing_df. packing_row.Count r)
       = (\<Sum>m\<leftarrow>filter (\<lambda>m. stop_cols.Driver m = Some d) df. count_value dv (final_row.Item_Count m))"
proof -
  let ?cols = "\<lambda>m. (stop_cols.Driver m, final_row.Lineitem_name m, count_value dv (final_row.Item_Count m))"
  let ?rows = "map ?cols df"
  let ?keys = "group_keys (map driver_item_key ?rows)"
  let ?S = "\<lambda>k. \<Sum>r\<leftarrow>filter (\<lambda>r. driver_item_key r = Some k) ?rows. snd (snd r)"
  let ?D = "\<lambda>r. packing_row.Driver r = Some d"
  note b = build_packing_Inr [OF build]
  have key_name: "length (matches df_plist (Some (snd k))) \<le> 1" if "k \<in> set ?keys" for k
  proof -
    from that obtain m where "m \<in> set df" and "driver_item_key (?cols m) = Some k"
      by (auto simp: set_group_keys)
    then have "m \<in> set df" and "final_row.Lineitem_name m = Some (snd k)"
      by (cases k, simp add: driver_item_key_Some)+
    with one show ?thesis by force
  qed
  have "(\<Sum>r\<leftarrow>filter ?D packing_df. packing_row.Count r)
      = (\<Sum>r\<leftarrow>filter ?D (concat (map (packing_join df_plist) (groupby_sum ?rows))). packing_row.Count r)"
    unfolding b(2) by (rule sum_filter_sort_key)
  also have "\<dots> = (\<Sum>k\<leftarrow>?keys. \<Sum>r\<leftarrow>filter ?D (packing_join df_plist (k, ?S k)). packing_row.Count r)"
    by (simp add: groupby_sum_eq filter_concat sum_list_concat_map comp_def)
  also have "\<dots> = (\<Sum>k\<leftarrow>?keys. if fst k = d then ?S k else 0)"
  proof (intro arg_cong [where f = sum_list] map_cong refl)
    fix k assume k: "k \<in> set ?keys"
    obtain d' n where dn: "k = (d', n)" by (cases k)
    from key_name [OF k] dn have "max 1 (length (matches df_plist (Some n))) = 1" by simp
    with dn show "(\<Sum>r\<leftarrow>filter ?D (packing_join df_plist (k, ?S k)). packing_row.Count r)
        = (if fst k = d then ?S k else 0)"
      by (simp add: packing_join_driver_sum)
  qed
  also have "\<dots> = (\<Sum>k\<leftarrow>filter (\<lambda>k. fst k = d) ?keys. ?S k)"
    by (rule sum_list_if_filter)
  also have "\<dots> = (\<Sum>r\<leftarrow>filter (\<lambda>r. driver_item_key r \<in> Some ` set (filter (\<lambda>k. fst k = d) ?keys)) ?rows.
        snd (snd r))"
    by (rule sum_by_groups) (simp add: distinct_group_keys)
  also have "filter (\<lambda>r. driver_item_key r \<in> Some ` set (filter (\<lambda>k. fst k = d) ?keys)) ?rows
      = map ?cols (filter (\<lambda>m. stop_cols.Driver m = Some d) df)"
  proof -
    have "driver_item_key (?cols m) \<in> Some ` set (filter (\<lambda>k. fst k = d) ?keys)
        \<longleftrightarrow> stop_cols.Driver m = Some d" if m: "m \<in> set df" for m
    proof
      assume "driver_item_key (?cols m) \<in> Some ` set (filter (\<lambda>k. fst k = d) ?keys)"
      then obtain k where "driver_item_key (?cols m) = Some k" and "fst k = d" by auto
      then show "stop_cols.Driver m = Some d"
        by (cases k) (simp add: driver_item_key_Some)
    next
      assume d: "stop_cols.Driver m = Some d"
      from b(1) m have "final_row.Item_Count m \<noteq> None" by force
      with names m obtain n where "final_row.Lineitem_name m = Some n" by auto
      with d have k: "driver_item_key (?cols m) = Some (d, n)"
        by (simp add: driver_item_key_Some)
      with m have "(d, n) \<in> set ?keys"
        by (force simp: set_group_keys)
      with k show "driver_item_key (?cols m) \<in> Some ` set (filter (\<lambda>k. fst k = d) ?keys)"
        by force
    qed
    then show ?thesis
      by (simp add: filter_map comp_def cong: filter_cong)
  qed
  finally show ?thesis by (simp add: comp_def)
qed

lemma packing_sorted:
  assumes "build_packing dv df df_plist = Inr packing_df"
  shows "sorted (map packing_sort_key packing_df)"
  unfolding build_packing_Inr(2) [OF assms] by (rule sorted_sort_key)

lemma packing_join_nonempty: "packing_join df_plist g \<noteq> []"
  by (cases g) (auto simp: packing_join_def Let_def split: prod.splits)

lemma packing_drivers:
  assumes build: "build_packing dv df df_plist = Inr packing_df"
    and names: "\<forall>m \<in> set df. final_row.Item_Count m \<noteq> None \<longrightarrow> final_row.Lineitem_name m \<noteq> None"
  shows "{d. Some d \<in> set (map packing_row.Driver packing_df)}
       = {d. Some d \<in> set (map stop_cols.Driver df)}"
proof -
  let ?cols = "\<lambda>m. (stop_cols.Driver m, final_row.Lineitem_name m, count_value dv (final_row.Item_Count m))"
  let ?rows = "map ?cols df"
  let ?keys = "group_keys (map driver_item_key ?rows)"
  note b = build_packing_Inr [OF build]
  have set_packing: "set packing_df = (\<Union>g \<in> set (groupby_sum ?rows). set (packing_join df_plist g))"
    unfolding b(2) by simp
  have keys: "fst ` set (groupby_sum ?rows) = set ?keys"
    by (simp add: groupby_sum_eq image_image)
  show ?thesis
  proof (intro set_eqI iffI; clarify)
    fix d assume "Some d \<in> set (map packing_row.Driver packing_df)"
    then obtain r where "r \<in> set packing_df" and d: "packing_row.Driver r = Some d"
      by force
    then obtain g where g: "g \<in> set (groupby_sum ?rows)" and r: "r \<in> set (packing_join df_plist g)"
      unfolding set_packing by blast
    obtain d' n c where gd: "g = ((d', n), c)" by (metis prod.collapse)
    with r d have "d' = d" using packing_join_fields(1) by fastforce
    with g gd keys have "(d, n) \<in> set ?keys" by force
    then obtain m where "m \<in> set df" and "driver_item_key (?cols m) = Some (d, n)"
      by (auto simp: set_group_keys)
    then show "Some d \<in> set (map stop_cols.Driver df)"
      by (force simp: driver_item_key_Some)
  next
    fix d assume "Some d \<in> set (map stop_cols.Driver df)"
    then obtain m where m: "m \<in> set df" and d: "stop_cols.Driver m = Some d" by auto
    from b(1) m have "final_row.Item_Count m \<noteq> None" by force
    with names m obtain n where "final_row.Lineitem_name m = Some n" by auto
    with d have "driver_item_key (?cols m) = Some (d, n)"
      by (simp add: driver_item_key_Some)
    with m have "(d, n) \<in> set ?keys" by (force simp: set_group_keys)
    with keys obtain g where g: "g \<in> set (groupby_sum ?rows)" and fg: "fst g = (d, n)" by force
    from packing_join_nonempty obtain r where r: "r \<in> set (packing_join df_plist g)"
      by (metis last_in_set)
    from fg have "g = ((d, n), snd g)" by (metis prod.collapse)
    with r have "packing_row.Driver r = Some d" using packing_join_fields(1) by metis
    moreover from g r have "r \<in> set packing_df"
      unfolding set_packing by blast
    ultimately show "Some d \<in> set (map packing_row.Driver packing_df)"
      by force
  qed
qed

lemma generate_Inr:
  assumes "generate dv lc route_file products_file = Inr (routing, packing)"
  obtains packing_df where
    "build_packing dv (fst (process_data dv lc route_file products_file))
       (snd (process_data dv lc route_file products_file)) = Inr packing_df"
    "routing = create_routing_file (fst (process_data dv lc route_file products_file))"
    "packing = create_packing_file packing_df"
  using assms by (auto simp: generate_def split: prod.splits sum.splits)

lemma final_names:
  "\<forall>m \<in> set (fst (process_data dv lc route_file products_file)).
     final_row.Item_Count m \<noteq> None \<longrightarrow> final_row.Lineitem_name m \<noteq> None"
  using final_name by blast

lemma generate_titles:
  assumes "generate dv lc route_file products_file = Inr (routing, packing)"
  shows "map title routing
       = group_keys (map stop_cols.Driver (fst (process_data dv lc route_file products_file)))"
    and "map title packing = map title routing"
proof -
  from assms obtain packing_df where
    b: "build_packing dv (fst (process_data dv lc route_file products_file))
       (snd (process_data dv lc route_file products_file)) = Inr packing_df"
    and r: "routing = create_routing_file (fst (process_data dv lc route_file products_file))"
    and p: "packing = create_packing_file packing_df"
    by (rule generate_Inr)
  show t: "map title routing
       = group_keys (map stop_cols.Driver (fst (process_data dv lc route_file products_file)))"
    by (simp add: r routing_titles)
  from packing_drivers [OF b final_names]
  show "map title packing = map title routing"
    by (simp add: t p packing_titles group_keys_sorted_list_of_set)
qed

subsection \<open>Order of the sheets\<close>

text \<open>
  Claim C10. The sheets of the routing workbook are titled with the drivers of the merged
  table in ascending order, each driver once, whatever the order of the drivers in the
  input; the sheets of the packing workbook are titled with the drivers of the packing
  table in the same way. In a run that ends with both workbooks, the two lists of titles
  are the same list.
\<close>

theorem sheets_in_driver_order:
  "map title (create_routing_file route_df)
     = sorted_list_of_set {d. Some d \<in> set (map stop_cols.Driver route_df)}
   \<and> map title (create_packing_file packing_df)
     = sorted_list_of_set {d. Some d \<in> set (map packing_row.Driver packing_df)}
   \<and> (generate dv lc route_file products_file = Inr (routing, packing) \<longrightarrow>
        map title routing
          = sorted_list_of_set
              {d. Some d \<in> set (map stop_cols.Driver (fst (process_data dv lc route_file products_file)))}
        \<and> map title packing = map title routing
        \<and> sorted_wrt (<) (map title routing))"
proof (intro conjI impI)
  show "map title (create_routing_file route_df)
     = sorted_list_of_set {d. Some d \<in> set (map stop_cols.Driver route_df)}"
    by (simp only: routing_titles group_keys_sorted_list_of_set)
  show "map title (create_packing_file packing_df)
     = sorted_list_of_set {d. Some d \<in> set (map packing_row.Driver packing_df)}"
    by (simp only: packing_titles group_keys_sorted_list_of_set)
next
  assume g: "generate dv lc route_file products_file = Inr (routing, packing)"
  from generate_titles [OF g]
  show "map title routing
          = sorted_list_of_set
              {d. Some d \<in> set (map stop_cols.Driver (fst (process_data dv lc route_file products_file)))}"
    and "map title packing = map title routing"
    by (simp_all only: group_keys_sorted_list_of_set)
  from generate_titles(1) [OF g] show "sorted_wrt (<) (map title routing)"
    by (simp add: strict_sorted_iff sorted_group_keys distinct_group_keys)
qed

theorem sheets_in_driver_order_witness:
  "map_sum id (\<lambda>(routing, packing). (map title routing, map title packing))
     (generate ascii_digits ascii_lc example_routes example_catalog)
   = Inr ([py ''Ann'', py ''Bob''], [py ''Ann'', py ''Bob''])
   \<and> map stop_cols.Driver (fst (process_data ascii_digits ascii_lc example_routes example_catalog))
     = [Some (py ''Bob''), Some (py ''Bob''), Some (py ''Ann'')]"
proof -
  obtain routing packing
    where g: "generate ascii_digits ascii_lc example_routes example_catalog = Inr (routing, packing)"
    by (simp add: generate_def build_packing_def astype_int_def py_int_def table_defs)
  have d: "map stop_cols.Driver (fst (process_data ascii_digits ascii_lc example_routes example_catalog))
     = [Some (py ''Bob''), Some (py ''Bob''), Some (py ''Ann'')]"
    by (simp add: table_defs)
  have k: "group_keys [Some (py ''Bob''), Some (py ''Bob''), Some (py ''Ann'')] = [py ''Ann'', py ''Bob'']"
    by (simp add: group_keys_def py_def)
  have s: "sorted_list_of_set
     {d. Some d \<in> set (map stop_cols.Driver
        (fst (process_data ascii_digits ascii_lc example_routes example_catalog)))}
     = [py ''Ann'', py ''Bob'']"
    unfolding group_keys_sorted_list_of_set [symmetric] d by (rule k)
  from g sheets_in_driver_order [of "[] :: int final_row list" "[]" ascii_digits ascii_lc
      example_routes example_catalog routing packing]
  have "map title routing = sorted_list_of_set
     {d. Some d \<in> set (map stop_cols.Driver
        (fst (process_data ascii_digits ascii_lc example_routes example_catalog)))}
     \<and> map title packing = map title routing"
    by blast
  with s g d show ?thesis by simp
qed

subsection \<open>Sheets and totals\<close>

text \<open>
  Claim C6. In a run that ends with both workbooks, every driver of the merged table has
  exactly one sheet in the routing workbook and exactly one in the packing workbook. The
  last row of a routing sheet holds, under \<^verbatim>\<open>Total items\<close>, \<^verbatim>\<open>time\<close> and \<^verbatim>\<open>dist\<close>, the
  sums of these columns over the rows between the header and itself, and is blank
  elsewhere; the last row of a packing sheet holds the sum of \<^verbatim>\<open>Count\<close> in the same way.
\<close>

theorem driver_sheets_and_totals:
  assumes "generate dv lc route_file products_file = Inr (routing, packing)"
  shows "(\<forall>d. Some d \<in> set (map stop_cols.Driver (fst (process_data dv lc route_file products_file)))
            \<longrightarrow> length (filter (\<lambda>ws. title ws = d) routing) = 1
                \<and> length (filter (\<lambda>ws. title ws = d) packing) = 1)
       \<and> (\<forall>ws \<in> set routing.
            map cell_value (last (rows ws))
              = [Blank, Blank, Blank, Number (column_sum 3 (butlast (tl (rows ws)))), Blank,
                 Number (column_sum 5 (butlast (tl (rows ws)))),
                 Number (column_sum 6 (butlast (tl (rows ws)))), Blank])
       \<and> (\<forall>ws \<in> set packing.
            map cell_value (last (rows ws))
              = [Blank, Blank, Blank, Number (column_sum 3 (butlast (tl (rows ws)))), Blank, Blank])"
proof (intro conjI allI impI ballI)
  fix d
  assume d: "Some d \<in> set (map stop_cols.Driver (fst (process_data dv lc route_file products_file)))"
  from generate_titles(1) [OF assms] d
  show "length (filter (\<lambda>ws. title ws = d) routing) = 1"
    by (rule one_sheet)
  from generate_titles [OF assms]
  have "map title packing
      = group_keys (map stop_cols.Driver (fst (process_data dv lc route_file products_file)))"
    by simp
  from this d show "length (filter (\<lambda>ws. title ws = d) packing) = 1"
    by (rule one_sheet)
next
  fix ws assume "ws \<in> set routing"
  with assms obtain driver grp
    where "ws = save_sheet (format_sheet (load_sheet (routing_sheet driver grp)))"
    by (metis generate_Inr routing_sheets)
  then show "map cell_value (last (rows ws))
              = [Blank, Blank, Blank, Number (column_sum 3 (butlast (tl (rows ws)))), Blank,
                 Number (column_sum 5 (butlast (tl (rows ws)))),
                 Number (column_sum 6 (butlast (tl (rows ws)))), Blank]"
    by (rule routing_sheet_total)
next
  fix ws assume "ws \<in> set packing"
  with assms obtain driver grp
    where "ws = save_sheet (format_sheet (load_sheet (packing_sheet driver grp)))"
    by (metis generate_Inr packing_sheets)
  then show "map cell_value (last (rows ws))
              = [Blank, Blank, Blank, Number (column_sum 3 (butlast (tl (rows ws)))), Blank, Blank]"
    by (rule packing_sheet_total)
qed

text \<open>The definitions that a concrete evaluation of the workbooks unfolds.\<close>

lemmas sheet_defs =
  create_routing_file_def create_packing_file_def format_excel_file_eq routing_sheet_rows
  packing_sheet_rows formatted_fields sheet_names format_cell_def
  routing_values_def routing_total_def packing_values_def packing_total_def
  routing_columns_def packing_columns_def text_value_def number_value_def sum_skipna_def
  driver_footer_def thin_border_def

theorem driver_sheets_and_totals_witness:
  "map_sum id (\<lambda>(routing, packing).
       (map (\<lambda>ws. (title ws, map cell_value (last (rows ws)))) routing,
        map (\<lambda>ws. (title ws, map cell_value (last (rows ws)))) packing))
     (generate ascii_digits ascii_lc example_routes example_catalog)
   = Inr ([(py ''Ann'', [Blank, Blank, Blank, Number 2, Blank, Number 10, Number 4, Blank]),
           (py ''Bob'', [Blank, Blank, Blank, Number 4, Blank, Number 20, Number 8, Blank])],
          [(py ''Ann'', [Blank, Blank, Blank, Number 3, Blank, Blank]),
           (py ''Bob'', [Blank, Blank, Blank, Number 3, Blank, Blank])])"
proof -
  obtain routing packing
    where g: "generate ascii_digits ascii_lc example_routes example_catalog = Inr (routing, packing)"
    by (simp add: generate_def build_packing_def astype_int_def py_int_def table_defs)
  have "map_sum id (\<lambda>(routing, packing).
       (map (\<lambda>ws. (title ws, map cell_value (last (rows ws)))) routing,
        map (\<lambda>ws. (title ws, map cell_value (last (rows ws)))) packing))
     (generate ascii_digits ascii_lc example_routes example_catalog)
   = Inr ([(py ''Ann'', [Blank, Blank, Blank, Number 2, Blank, Number 10, Number 4, Blank]),
           (py ''Bob'', [Blank, Blank, Blank, Number 4, Blank, Number 20, Number 8, Blank])],
          [(py ''Ann'', [Blank, Blank, Blank, Number 3, Blank, Blank]),
           (py ''Bob'', [Blank, Blank, Blank, Number 3, Blank, Blank])])"
    by (simp add: table_defs packing_defs sheet_defs)
  with driver_sheets_and_totals [OF g] show ?thesis by simp
qed

text \<open>
  Claim C7, as amended. Let the packing table be built, and let every item name of the
  merged table match at most one row of the parsed catalog. Then, for every driver, the
  counts of the driver's packing rows add up to the item counts of the driver's merged
  route rows. The packing table is sorted in ascending order of driver, product type,
  SKU and item name, a missing value coming after every value.
\<close>

theorem packing_count_conservation:
  assumes "process_data dv lc route_file products_file = (route_df, df_plist)"
    and "build_packing dv route_df df_plist = Inr packing_df"
    and "\<forall>m \<in> set route_df. length (matches df_plist (final_row.Lineitem_name m)) \<le> 1"
  shows "(\<forall>d. (\<Sum>r\<leftarrow>filter (\<lambda>r. packing_row.Driver r = Some d) packing_df. packing_row.Count r)
            = (\<Sum>m\<leftarrow>filter (\<lambda>m. stop_cols.Driver m = Some d) route_df.
                 count_value dv (final_row.Item_Count m)))
       \<and> sorted (map packing_sort_key packing_df)"
proof (intro conjI allI)
  from assms(1) have "route_df = fst (process_data dv lc route_file products_file)" by simp
  with final_names
  have names: "\<forall>m \<in> set route_df. final_row.Item_Count m \<noteq> None \<longrightarrow> final_row.Lineitem_name m \<noteq> None"
    by blast
  fix d
  show "(\<Sum>r\<leftarrow>filter (\<lambda>r. packing_row.Driver r = Some d) packing_df. packing_row.Count r)
            = (\<Sum>m\<leftarrow>filter (\<lambda>m. stop_cols.Driver m = Some d) route_df.
                 count_value dv (final_row.Item_Count m))"
    using assms(2) names assms(3) by (rule packing_driver_sum)
next
  from assms(2) show "sorted (map packing_sort_key packing_df)"
    by (rule packing_sorted)
qed

theorem packing_count_conservation_witness:
  "map_sum id (map (\<lambda>r. (packing_row.Driver r, packing_row.Lineitem_name r, packing_row.Count r)))
     (build_packing ascii_digits
        (fst (process_data ascii_digits ascii_lc example_routes example_catalog))
        (snd (process_data ascii_digits ascii_lc example_routes example_catalog)))
   = Inr [(Some (py ''Ann''), Some (py ''Rice''), 3), (Some (py ''Bob''), Some (py ''Milk''), 2),
          (Some (py ''Bob''), Some (py ''Eggs''), 1)]
   \<and> map (\<lambda>m. (stop_cols.Driver m, count_value ascii_digits (final_row.Item_Count m)))
       (fst (process_data ascii_digits ascii_lc example_routes example_catalog))
     = [(Some (py ''Bob''), 2), (Some (py ''Bob''), 1), (Some (py ''Ann''), 3)]"
proof -
  obtain route_df df_plist
    where p: "process_data ascii_digits ascii_lc example_routes example_catalog = (route_df, df_plist)"
    by (cases "process_data ascii_digits ascii_lc example_routes example_catalog")
  obtain packing_df where b: "build_packing ascii_digits route_df df_plist = Inr packing_df"
    using p by (auto simp: build_packing_def astype_int_def py_int_def table_defs)
  have one: "\<forall>m \<in> set route_df. length (matches df_plist (final_row.Lineitem_name m)) \<le> 1"
    using p by (auto simp: table_defs)
  have "map_sum id (map (\<lambda>r. (packing_row.Driver r, packing_row.Lineitem_name r, packing_row.Count r)))
     (build_packing ascii_digits
        (fst (process_data ascii_digits ascii_lc example_routes example_catalog))
        (snd (process_data ascii_digits ascii_lc example_routes example_catalog)))
   = Inr [(Some (py ''Ann''), Some (py ''Rice''), 3), (Some (py ''Bob''), Some (py ''Milk''), 2),
          (Some (py ''Bob''), Some (py ''Eggs''), 1)]"
    by (simp add: table_defs packing_defs)
  moreover have "map (\<lambda>m. (stop_cols.Driver m, count_value ascii_digits (final_row.Item_Count m)))
       (fst (process_data ascii_digits ascii_lc example_routes example_catalog))
     = [(Some (py ''Bob''), 2), (Some (py ''Bob''), 1), (Some (py ''Ann''), 3)]"
    by (simp add: table_defs packing_defs count_value_def)
  ultimately show ?thesis
    using packing_count_conservation [OF p b one] by simp
qed

text \<open>
  The claim as it was stated holds for every catalog. With two catalog rows titled
  \<^verbatim>\<open>Milk\<close>, the one route row of two milks is merged into two rows, whose counts add up
  to 4, and the packing table has two rows of count 4, which add up to 8.
\<close>

theorem packing_double_join_counterexample:
  "map_sum id (map packing_row.Driver)
     (build_packing ascii_digits
        (fst (process_data ascii_digits ascii_lc [hd example_routes]
               (example_catalog @ [entry ''Milk'' (Some kw_vege) ''M-2''])))
        (snd (process_data ascii_digits ascii_lc [hd example_routes]
               (example_catalog @ [entry ''Milk'' (Some kw_vege) ''M-2'']))))
   = Inr [Some (py ''Bob''), Some (py ''Bob'')]
   \<and> map_sum id (map packing_row.Count)
     (build_packing ascii_digits
        (fst (process_data ascii_digits ascii_lc [hd example_routes]
               (example_catalog @ [entry ''Milk'' (Some kw_vege) ''M-2''])))
        (snd (process_data ascii_digits ascii_lc [hd example_routes]
               (example_catalog @ [entry ''Milk'' (Some kw_vege) ''M-2'']))))
   = Inr [4, 4]
   \<and> map stop_cols.Driver
       (fst (process_data ascii_digits ascii_lc [hd example_routes]
              (example_catalog @ [entry ''Milk'' (Some kw_vege) ''M-2''])))
     = [Some (py ''Bob''), Some (py ''Bob'')]
   \<and> map (count_value ascii_digits) (map final_row.Item_Count
       (fst (process_data ascii_digits ascii_lc [hd example_routes]
              (example_catalog @ [entry ''Milk'' (Some kw_vege) ''M-2'']))))
     = [2, 2]
   \<and> sum_list [4, 4] \<noteq> (sum_list [2, 2] :: int)"
  by (simp add: table_defs packing_defs count_value_def)

end
